theory Spec2Isabelle
  imports Main
begin

unbundle bit_operations_syntax

section \<open>Data model of net_visualizer/main.go\<close>

text \<open>
  The Go types of the correlator. \<open>int\<close> and \<open>int64\<close> values are modelled as HOL
  integers; the only place where their 64-bit range matters is the conversion from text
  (\<open>strconv.Atoi\<close>, \<open>strconv.ParseInt\<close>), where the range check is written out. No
  arithmetic is done on ports or process ids afterwards.
\<close>

datatype Direction = Remote2Local | Local2Remote

record InputLine =
  Dir :: Direction
  RemoteIP :: string
  RemotePort :: int
  LocalIP :: string
  LocalPort :: int
  ProcessID :: int
  ProcessName :: string

record NetworkEndpoint =
  IP :: string
  Port :: int

text \<open>
  \<open>DotNode\<close> is a handle into the DOT graph of the rendering library. The model keeps
  the node id of the handle; \<open>None\<close> is Go's zero-valued \<open>dot.Node\<close>, whose graph
  pointer is nil.
\<close>

record ProcessEndpoints =
  ProcessID :: int
  ProcessName :: string
  LocalIP :: string
  LocalPorts :: "int list"
  DotNode :: "string option"

record ProcessEndpoint =
  PID :: int
  Port :: int

record Edge =
  Source :: ProcessEndpoint
  Dest :: ProcessEndpoint

section \<open>The two regular expressions\<close>

text \<open>
  Both patterns of the source are a sequence of literals and capture groups of the form
  \<open>(c+)\<close>, where \<open>c\<close> is \<open>.\<close> (any character but newline) or \<open>\d\<close> (an ASCII digit):
  \<^verbatim>\<open>(.+):(\d+)<-(.+):(\d+)\|PID=(\d+) CMD=(.+)\<close> and the same with \<^verbatim>\<open>->\<close>.
  Go's \<open>regexp\<close> returns the leftmost match and, among the matches that start there, the
  one a backtracking search finds first; every \<open>+\<close> is greedy. \<open>matchHere\<close> is that
  backtracking search at a fixed start, \<open>FindStringSubmatch\<close> tries the starts from left to
  right. The result holds the six groups, \<open>matches[1]\<close> to \<open>matches[6]\<close> of the source
  (the source never reads \<open>matches[0]\<close>). Strings are byte lists; as every literal of the
  patterns is ASCII, matching bytes and matching runes split a line at the same places.
\<close>

datatype rx_class = AnyChar | Digit

datatype rx_item = Lit string | Group rx_class

definition isDigit :: "char \<Rightarrow> bool" where
  "isDigit c = (c \<in> set ''0123456789'')"

fun cls_ok :: "rx_class \<Rightarrow> char \<Rightarrow> bool" where
  "cls_ok AnyChar c = (c \<noteq> CHR 0x0A)"
| "cls_ok Digit c = isDigit c"

text \<open>\<open>tryDown f n\<close> is the first success among \<open>f n\<close>, \<open>f (n - 1)\<close>, ..., \<open>f 1\<close>:
  a greedy \<open>+\<close> gives back one character at a time, and keeps at least one.\<close>

fun tryDown :: "(nat \<Rightarrow> 'a option) \<Rightarrow> nat \<Rightarrow> 'a option" where
  "tryDown f 0 = None"
| "tryDown f (Suc n) = (case f (Suc n) of Some r \<Rightarrow> Some r | None \<Rightarrow> tryDown f n)"

primrec matchHere :: "rx_item list \<Rightarrow> string \<Rightarrow> string list option" where
  "matchHere [] s = Some []"
| "matchHere (it # r) s =
     (case it of
        Lit l \<Rightarrow> if take (length l) s = l then matchHere r (drop (length l) s) else None
      | Group c \<Rightarrow>
          tryDown (\<lambda>n. map_option ((#) (take n s)) (matchHere r (drop n s)))
                  (length (takeWhile (cls_ok c) s)))"

fun FindStringSubmatch :: "rx_item list \<Rightarrow> string \<Rightarrow> string list option" where
  "FindStringSubmatch re [] = matchHere re []"
| "FindStringSubmatch re (c # s) =
     (case matchHere re (c # s) of
        Some m \<Rightarrow> Some m
      | None \<Rightarrow> FindStringSubmatch re s)"

definition regexArrow :: "string \<Rightarrow> rx_item list" where
  "regexArrow arrow =
     [Group AnyChar, Lit '':'', Group Digit, Lit arrow, Group AnyChar, Lit '':'', Group Digit,
      Lit ''|PID='', Group Digit, Lit '' CMD='', Group AnyChar]"

definition regexLocalToRemote :: "rx_item list" where
  "regexLocalToRemote = regexArrow ''<-''"

definition regexRemoteToLocal :: "rx_item list" where
  "regexRemoteToLocal = regexArrow ''->''"

section \<open>Decimal conversion\<close>

text \<open>
  \<open>strconv.ParseInt(s, 10, 64)\<close>: an optional sign, then at least one decimal digit and
  nothing else; a value outside the signed 64-bit range is an error. \<open>strconv.Atoi\<close>
  is the same conversion to \<open>int\<close>, taken as 64 bits wide.
\<close>

definition digitVal :: "char \<Rightarrow> nat" where
  "digitVal c = of_char c - 48"

definition decimal :: "string \<Rightarrow> int" where
  "decimal ds = foldl (\<lambda>acc c. acc * 10 + int (digitVal c)) 0 ds"

definition ParseInt :: "string \<Rightarrow> int option" where
  "ParseInt s =
     (case s of
        [] \<Rightarrow> None
      | c # r \<Rightarrow>
          (let neg = (c = CHR ''-'');
               ds = (if c = CHR ''+'' \<or> c = CHR ''-'' then r else s)
           in if ds = [] \<or> \<not> list_all isDigit ds then None
              else if neg then
                (if decimal ds > 2 ^ 63 then None else Some (- decimal ds))
              else
                (if decimal ds \<ge> 2 ^ 63 then None else Some (decimal ds))))"

definition Atoi :: "string \<Rightarrow> int option" where
  "Atoi s = ParseInt s"

section \<open>parseLine\<close>

datatype parse_error = SkippingInvalidLine string

definition parseLine :: "string \<Rightarrow> parse_error + InputLine" where
  "parseLine line =
     (case (case FindStringSubmatch regexLocalToRemote line of
              Some m \<Rightarrow> Some (Local2Remote, m)
            | None \<Rightarrow>
                (case FindStringSubmatch regexRemoteToLocal line of
                   Some m \<Rightarrow> Some (Remote2Local, m)
                 | None \<Rightarrow> None)) of
        None \<Rightarrow> Inl (SkippingInvalidLine line)
      | Some (d, [m1, m2, m3, m4, m5, m6]) \<Rightarrow>
          (case Atoi m2 of
             None \<Rightarrow> Inl (SkippingInvalidLine line)
           | Some rport \<Rightarrow>
               (case Atoi m4 of
                  None \<Rightarrow> Inl (SkippingInvalidLine line)
                | Some lport \<Rightarrow>
                    (case ParseInt m5 of
                       None \<Rightarrow> Inl (SkippingInvalidLine line)
                     | Some pid \<Rightarrow>
                         Inr \<lparr>Dir = d, RemoteIP = m1, RemotePort = rport,
                              InputLine.LocalIP = m3, LocalPort = lport,
                              InputLine.ProcessID = pid, InputLine.ProcessName = m6\<rparr>)))
      | Some (d, _) \<Rightarrow> Inl (SkippingInvalidLine line))"

section \<open>IsValidLine\<close>

text \<open>
  \<open>IsValidLine\<close> calls the Go standard library: \<open>net.ParseIP\<close>, \<open>net.IPv4\<close>,
  \<open>net.CIDRMask\<close> and \<open>IPNet.Contains\<close>. They are modelled here after the library's
  sources (\<open>net/ip.go\<close>, \<open>net/netip/netip.go\<close>). An \<open>IP\<close> and an \<open>IPMask\<close> are byte
  slices, modelled as lists of numbers below 256; the nil slice is the empty list.
  No theorem below depends on how \<open>ParseIP\<close> reads a text, except where it is evaluated
  on a concrete address.
\<close>

type_synonym IP = "nat list"

record IPNet =
  IP :: IP
  Mask :: "nat list"

definition v4InV6Prefix :: "nat list" where
  "v4InV6Prefix = [0, 0, 0, 0, 0, 0, 0, 0, 0, 0, 255, 255]"

definition IPv4 :: "nat \<Rightarrow> nat \<Rightarrow> nat \<Rightarrow> nat \<Rightarrow> IP" where
  "IPv4 a b c d = v4InV6Prefix @ [a, b, c, d]"

definition CIDRMask :: "nat \<Rightarrow> nat \<Rightarrow> nat list" where
  "CIDRMask ones bits =
     (if (bits \<noteq> 32 \<and> bits \<noteq> 128) \<or> ones > bits then []
      else map (\<lambda>i. if ones - 8 * i \<ge> 8 then 255 else 255 - 255 div 2 ^ (ones - 8 * i))
               [0..<bits div 8])"

definition To4 :: "IP \<Rightarrow> IP" where
  "To4 ip =
     (if length ip = 4 then ip
      else if length ip = 16 \<and> take 10 ip = replicate 10 0 \<and> ip ! 10 = 255 \<and> ip ! 11 = 255
      then drop 12 ip
      else [])"

definition networkNumberAndMask :: "IPNet \<Rightarrow> IP \<times> nat list" where
  "networkNumberAndMask n =
     (let ip = (if To4 (IPNet.IP n) \<noteq> [] then To4 (IPNet.IP n) else IPNet.IP n)
      in if To4 (IPNet.IP n) = [] \<and> length ip \<noteq> 16 then ([], [])
         else if length (Mask n) = 4 then
           (if length ip \<noteq> 4 then ([], []) else (ip, Mask n))
         else if length (Mask n) = 16 then
           (if length ip = 4 then (ip, drop 12 (Mask n)) else (ip, Mask n))
         else ([], []))"

definition Contains :: "IPNet \<Rightarrow> IP \<Rightarrow> bool" where
  "Contains n ip0 =
     (let (nn, m) = networkNumberAndMask n;
          ip = (if To4 ip0 \<noteq> [] then To4 ip0 else ip0);
          l = length ip
      in if l \<noteq> length nn then False
         else list_all (\<lambda>i. (nn ! i) AND (m ! i) = (ip ! i) AND (m ! i)) [0..<l])"

text \<open>
  \<open>parseIPv4Fields\<close>: dotted decimal, four fields of at most 255, no leading zero, no empty
  field. \<open>prev\<close> is the character before the current one (\<open>None\<close> at the start),
  \<open>flds\<close> the octets stored so far.
\<close>

fun parseIPv4Fields :: "char option \<Rightarrow> string \<Rightarrow> nat \<Rightarrow> nat \<Rightarrow> nat list \<Rightarrow> nat list option" where
  "parseIPv4Fields prev [] val digLen flds =
     (if length flds < 3 then None else Some (flds @ [val]))"
| "parseIPv4Fields prev (c # cs) val digLen flds =
     (if isDigit c then
        (if digLen = 1 \<and> val = 0 then None
         else if val * 10 + digitVal c > 255 then None
         else parseIPv4Fields (Some c) cs (val * 10 + digitVal c) (digLen + 1) flds)
      else if c = CHR ''.'' then
        (if prev = None \<or> cs = [] \<or> prev = Some (CHR ''.'') then None
         else if length flds = 3 then None
         else parseIPv4Fields (Some c) cs 0 0 (flds @ [val]))
      else None)"

definition parseIPv4 :: "string \<Rightarrow> nat list option" where
  "parseIPv4 s = parseIPv4Fields None s 0 0 []"

definition isHex :: "char \<Rightarrow> bool" where
  "isHex c = (c \<in> set ''0123456789abcdefABCDEF'')"

definition hexVal :: "char \<Rightarrow> nat" where
  "hexVal c =
     (if isDigit c then of_char c - 48
      else if c \<in> set ''abcdef'' then of_char c - 87
      else of_char c - 55)"

text \<open>
  The loop of \<open>parseIPv6\<close>: \<open>ip\<close> holds the bytes written so far (the source's index
  \<open>i\<close> is its length) and \<open>ellipsis\<close> the position of \<open>::\<close>, if one was seen. The result
  is the unread rest of the text with both.
\<close>

function parseIPv6Loop :: "string \<Rightarrow> nat list \<Rightarrow> nat option \<Rightarrow> (string \<times> nat list \<times> nat option) option" where
  "parseIPv6Loop s ip ellipsis =
     (if length ip \<ge> 16 then Some (s, ip, ellipsis)
      else if length (takeWhile isHex s) > 4 \<or> takeWhile isHex s = [] then None
      else if dropWhile isHex s \<noteq> [] \<and> hd (dropWhile isHex s) = CHR ''.'' then
        (if ellipsis = None \<and> length ip \<noteq> 12 then None
         else if length ip + 4 > 16 then None
         else (case parseIPv4Fields None s 0 0 [] of
                 None \<Rightarrow> None
               | Some f \<Rightarrow> Some ([], ip @ f, ellipsis)))
      else if dropWhile isHex s = [] then
        Some ([], ip @ [foldl (\<lambda>acc c. acc * 16 + hexVal c) 0 (takeWhile isHex s) div 256,
                        foldl (\<lambda>acc c. acc * 16 + hexVal c) 0 (takeWhile isHex s) mod 256],
              ellipsis)
      else if hd (dropWhile isHex s) \<noteq> CHR '':'' then None
      else if length (dropWhile isHex s) = 1 then None
      else if hd (tl (dropWhile isHex s)) = CHR '':'' then
        (if ellipsis \<noteq> None then None
         else if tl (tl (dropWhile isHex s)) = [] then
           Some ([], ip @ [foldl (\<lambda>acc c. acc * 16 + hexVal c) 0 (takeWhile isHex s) div 256,
                           foldl (\<lambda>acc c. acc * 16 + hexVal c) 0 (takeWhile isHex s) mod 256],
                 Some (length ip + 2))
         else parseIPv6Loop (tl (tl (dropWhile isHex s)))
                (ip @ [foldl (\<lambda>acc c. acc * 16 + hexVal c) 0 (takeWhile isHex s) div 256,
                       foldl (\<lambda>acc c. acc * 16 + hexVal c) 0 (takeWhile isHex s) mod 256])
                (Some (length ip + 2)))
      else parseIPv6Loop (tl (dropWhile isHex s))
             (ip @ [foldl (\<lambda>acc c. acc * 16 + hexVal c) 0 (takeWhile isHex s) div 256,
                    foldl (\<lambda>acc c. acc * 16 + hexVal c) 0 (takeWhile isHex s) mod 256])
             ellipsis)"
  by pat_completeness auto
termination
  by (relation "measure (\<lambda>(s, ip, ellipsis). 16 - length ip)") auto

declare parseIPv6Loop.simps [simp del]

text \<open>
  \<open>parseIPv6\<close> as \<open>net.ParseIP\<close> uses it: a text with a zone (\<open>%\<close>) is refused, since
  \<open>ParseIP\<close> refuses every address that has one.
\<close>

definition parseIPv6 :: "string \<Rightarrow> nat list option" where
  "parseIPv6 s0 =
     (if CHR ''%'' \<in> set s0 then None
      else if take 2 s0 = ''::'' \<and> drop 2 s0 = [] then Some (replicate 16 0)
      else
        (case parseIPv6Loop (if take 2 s0 = ''::'' then drop 2 s0 else s0) []
                (if take 2 s0 = ''::'' then Some 0 else None) of
           None \<Rightarrow> None
         | Some (s, ip, ellipsis) \<Rightarrow>
             if s \<noteq> [] then None
             else if length ip < 16 then
               (case ellipsis of
                  None \<Rightarrow> None
                | Some e \<Rightarrow> Some (take e ip @ replicate (16 - length ip) 0 @ drop e ip))
             else if ellipsis \<noteq> None then None
             else Some ip))"

definition ParseAddr :: "string \<Rightarrow> nat list option" where
  "ParseAddr s =
     (case dropWhile (\<lambda>c. c \<noteq> CHR ''.'' \<and> c \<noteq> CHR '':'' \<and> c \<noteq> CHR ''%'') s of
        [] \<Rightarrow> None
      | c # _ \<Rightarrow>
          if c = CHR ''.'' then parseIPv4 s
          else if c = CHR '':'' then parseIPv6 s
          else None)"

definition ParseIP :: "string \<Rightarrow> IP" where
  "ParseIP s =
     (case ParseAddr s of
        None \<Rightarrow> []
      | Some b \<Rightarrow> if length b = 4 then v4InV6Prefix @ b else b)"

definition loopbackNet :: IPNet where
  "loopbackNet = \<lparr>IPNet.IP = IPv4 127 0 0 0, Mask = CIDRMask 8 32\<rparr>"

definition IsValidLine :: "InputLine \<Rightarrow> bool" where
  "IsValidLine line =
     (if LocalPort line = 0 \<or> RemotePort line = 0 then False
      else if Contains loopbackNet (ParseIP (InputLine.LocalIP line))
              \<or> Contains loopbackNet (ParseIP (RemoteIP line)) then False
      else if InputLine.ProcessName line = ''k3s-server'' then False
      else True)"

section \<open>The DOT graph of the rendering library\<close>

text \<open>
  The graph of \<open>github.com/emicklei/dot\<close> is only written to. The model keeps what the
  correlator hands over: the node ids in creation order (\<open>Graph.Node\<close> returns the
  existing node when the id is known) and one entry (from, to, label) for every call of
  \<open>Node.Edge\<close>. Calling \<open>Edge\<close> on the zero-valued \<open>dot.Node\<close> dereferences its nil graph
  pointer.
\<close>

record Graph =
  gNodes :: "string list"
  gEdges :: "(string \<times> string \<times> string) list"

definition NewGraph :: Graph where
  "NewGraph = \<lparr>gNodes = [], gEdges = []\<rparr>"

definition graphNode :: "Graph \<Rightarrow> string \<Rightarrow> Graph" where
  "graphNode g ident = (if ident \<in> set (gNodes g) then g else g\<lparr>gNodes := gNodes g @ [ident]\<rparr>)"

definition nodeId :: "string option \<Rightarrow> string" where
  "nodeId n = (case n of None \<Rightarrow> [] | Some i \<Rightarrow> i)"

section \<open>Formatting\<close>

fun showNat :: "nat \<Rightarrow> string" where
  "showNat n =
     (if n < 10 then [''0123456789'' ! n]
      else showNat (n div 10) @ [''0123456789'' ! (n mod 10)])"

declare showNat.simps [simp del]

definition showInt :: "int \<Rightarrow> string" where
  "showInt i = (if i < 0 then CHR ''-'' # showNat (nat (- i)) else showNat (nat i))"

section \<open>createGraphFromStdin\<close>

text \<open>
  The three maps of \<open>createGraphFromStdin\<close> and the graph form the state of its loop.
  A Go \<open>panic\<close> ends the run; it is a value of type \<open>panic\<close>.
\<close>

datatype panic =
    AssumptionNotRespected string string
  | LogicalBug
  | PIDReuse
  | NilPointerDereference

record State =
  graph :: Graph
  nodes :: "int \<rightharpoonup> ProcessEndpoints"
  knownEndpoints :: "NetworkEndpoint \<rightharpoonup> int"
  edges :: "Edge set"

definition initialState :: State where
  "initialState = \<lparr>graph = NewGraph, nodes = Map.empty, knownEndpoints = Map.empty, edges = {}\<rparr>"

definition localEp :: "InputLine \<Rightarrow> NetworkEndpoint" where
  "localEp parsedLine =
     \<lparr>NetworkEndpoint.IP = InputLine.LocalIP parsedLine, NetworkEndpoint.Port = LocalPort parsedLine\<rparr>"

definition remoteEp :: "InputLine \<Rightarrow> NetworkEndpoint" where
  "remoteEp parsedLine =
     \<lparr>NetworkEndpoint.IP = RemoteIP parsedLine, NetworkEndpoint.Port = RemotePort parsedLine\<rparr>"

text \<open>Lines 155 to 186: is the PID of this line known or not.\<close>

definition upsertNode :: "State \<Rightarrow> InputLine \<Rightarrow> panic + State" where
  "upsertNode st parsedLine =
     (case nodes st (InputLine.ProcessID parsedLine) of
        None \<Rightarrow>
          (let ident = ''PID='' @ showInt (InputLine.ProcessID parsedLine) @ [CHR 0x0A]
                       @ ''Name='' @ InputLine.ProcessName parsedLine @ [CHR 0x0A]
                       @ ''IP='' @ InputLine.LocalIP parsedLine
           in Inr (st\<lparr>graph := graphNode (graph st) ident,
                       nodes := (nodes st)(InputLine.ProcessID parsedLine \<mapsto>
                          \<lparr>ProcessID = InputLine.ProcessID parsedLine,
                           ProcessName = InputLine.ProcessName parsedLine,
                           LocalIP = InputLine.LocalIP parsedLine,
                           LocalPorts = [LocalPort parsedLine],
                           DotNode = Some ident\<rparr>)\<rparr>))
      | Some n \<Rightarrow>
          if LocalIP n \<noteq> InputLine.LocalIP parsedLine then
            Inl (AssumptionNotRespected (LocalIP n) (InputLine.LocalIP parsedLine))
          else if ProcessID n \<noteq> InputLine.ProcessID parsedLine then Inl LogicalBug
          else if ProcessName n \<noteq> InputLine.ProcessName parsedLine then Inl PIDReuse
          else Inr (st\<lparr>nodes := (nodes st)(InputLine.ProcessID parsedLine \<mapsto>
                      (if LocalPort parsedLine \<in> set (LocalPorts n) then n
                       else n\<lparr>LocalPorts := LocalPorts n @ [LocalPort parsedLine]\<rparr>))\<rparr>))"

text \<open>Lines 188 to 202: register the local endpoint to the local PID.\<close>

definition registerLocalEp :: "State \<Rightarrow> InputLine \<Rightarrow> panic + State" where
  "registerLocalEp st parsedLine =
     (case knownEndpoints st (localEp parsedLine) of
        None \<Rightarrow>
          Inr (st\<lparr>knownEndpoints :=
                     (knownEndpoints st)(localEp parsedLine \<mapsto> InputLine.ProcessID parsedLine)\<rparr>)
      | Some e \<Rightarrow>
          if e \<noteq> InputLine.ProcessID parsedLine then Inl LogicalBug else Inr st)"

text \<open>
  Lines 204 to 244: draw an edge if the PID behind the remote endpoint is known.
  \<open>nodes[pid]\<close> of a missing key is Go's zero value.
\<close>

definition zeroProcessEndpoints :: ProcessEndpoints where
  "zeroProcessEndpoints =
     \<lparr>ProcessID = 0, ProcessName = [], LocalIP = [], LocalPorts = [], DotNode = None\<rparr>"

definition nodeOf :: "State \<Rightarrow> int \<Rightarrow> ProcessEndpoints" where
  "nodeOf st pid = (case nodes st pid of None \<Rightarrow> zeroProcessEndpoints | Some n \<Rightarrow> n)"

definition edgeOf :: "InputLine \<Rightarrow> int \<Rightarrow> Edge" where
  "edgeOf parsedLine remotePID =
     (if Dir parsedLine = Remote2Local then
        \<lparr>Source = \<lparr>PID = remotePID, ProcessEndpoint.Port = RemotePort parsedLine\<rparr>,
         Dest = \<lparr>PID = InputLine.ProcessID parsedLine, ProcessEndpoint.Port = LocalPort parsedLine\<rparr>\<rparr>
      else
        \<lparr>Source = \<lparr>PID = InputLine.ProcessID parsedLine, ProcessEndpoint.Port = LocalPort parsedLine\<rparr>,
         Dest = \<lparr>PID = remotePID, ProcessEndpoint.Port = RemotePort parsedLine\<rparr>\<rparr>)"

definition drawEdge :: "State \<Rightarrow> InputLine \<Rightarrow> panic + State" where
  "drawEdge st parsedLine =
     (case knownEndpoints st (remoteEp parsedLine) of
        None \<Rightarrow> Inr st
      | Some remotePID \<Rightarrow>
          (let edge = edgeOf parsedLine remotePID in
           if edge \<in> edges st then Inr st
           else
             (let sourceNode = nodeOf st (PID (Source edge));
                  destNode = nodeOf st (PID (Dest edge));
                  label = LocalIP sourceNode @ '':'' @ showInt (ProcessEndpoint.Port (Source edge))
                          @ ''->'' @ LocalIP destNode @ '':''
                          @ showInt (ProcessEndpoint.Port (Dest edge))
              in case DotNode sourceNode of
                   None \<Rightarrow> Inl NilPointerDereference
                 | Some src \<Rightarrow>
                     Inr (st\<lparr>graph := (graph st)\<lparr>gEdges := gEdges (graph st)
                                              @ [(src, nodeId (DotNode destNode), label)]\<rparr>,
                             edges := insert edge (edges st)\<rparr>))))"

text \<open>What the loop does with an observation that was parsed and found valid.\<close>

definition correlate :: "State \<Rightarrow> InputLine \<Rightarrow> panic + State" where
  "correlate st parsedLine =
     (case upsertNode st parsedLine of
        Inl p \<Rightarrow> Inl p
      | Inr st1 \<Rightarrow>
          (case registerLocalEp st1 parsedLine of
             Inl p \<Rightarrow> Inl p
           | Inr st2 \<Rightarrow> drawEdge st2 parsedLine))"

text \<open>One round of the loop: a line that does not parse or is not valid is skipped.\<close>

definition processLine :: "State \<Rightarrow> string \<Rightarrow> panic + State" where
  "processLine st line =
     (case parseLine line of
        Inl err \<Rightarrow> Inr st
      | Inr parsedLine \<Rightarrow>
          if \<not> IsValidLine parsedLine then Inr st else correlate st parsedLine)"

text \<open>The loop over the lines the scanner yields, from a given state.\<close>

fun processLines :: "State \<Rightarrow> string list \<Rightarrow> panic + State" where
  "processLines st [] = Inr st"
| "processLines st (line # rest) =
     (case processLine st line of
        Inl p \<Rightarrow> Inl p
      | Inr st' \<Rightarrow> processLines st' rest)"

definition createGraphFromStdin :: "string list \<Rightarrow> panic + State" where
  "createGraphFromStdin stdin = processLines initialState stdin"

section \<open>Notions used in the statements\<close>

subsection \<open>What a pattern accepts\<close>

text \<open>
  \<open>fits re caps s rest\<close>: the text \<open>s\<close> starts with a match of the pattern \<open>re\<close>
  whose groups are \<open>caps\<close>, and \<open>rest\<close> is what follows the match. This is the
  meaning of the pattern, stated without a search order; \<open>matchHere\<close> is compared with it
  below.
\<close>

fun fits :: "rx_item list \<Rightarrow> string list \<Rightarrow> string \<Rightarrow> string \<Rightarrow> bool" where
  "fits [] caps s rest = (caps = [] \<and> rest = s)"
| "fits (Lit l # r) caps s rest = (\<exists>t. s = l @ t \<and> fits r caps t rest)"
| "fits (Group c # r) caps s rest =
     (\<exists>g cs t. caps = g # cs \<and> g \<noteq> [] \<and> list_all (cls_ok c) g \<and> s = g @ t \<and> fits r cs t rest)"

text \<open>
  The input format: \<open>shapeLine a pa arrow b pb pid name\<close> is the line
  \<^verbatim>\<open>a:pa<arrow>b:pb|PID=pid CMD=name\<close>. A text field is plain when it is not empty
  and holds none of \<open><\<close>, \<open>>\<close>, \<open>|\<close> and newline (an IPv4 or IPv6 address and a
  command name such as \<open>k3s-server\<close> are plain); a number is a non-empty run of decimal
  digits. \<open>hasShape arrow line\<close>: some part of the line is accepted by the pattern with
  that arrow.
\<close>

definition plainText :: "string \<Rightarrow> bool" where
  "plainText s = (s \<noteq> [] \<and> list_all (\<lambda>c. c \<notin> set ''<>|'' \<and> c \<noteq> CHR 0x0A) s)"

definition decimalText :: "string \<Rightarrow> bool" where
  "decimalText s = (s \<noteq> [] \<and> list_all isDigit s)"

definition shapeLine :: "string \<Rightarrow> string \<Rightarrow> string \<Rightarrow> string \<Rightarrow> string \<Rightarrow> string \<Rightarrow> string \<Rightarrow> string" where
  "shapeLine a pa arrow b pb pid name =
     a @ '':'' @ pa @ arrow @ b @ '':'' @ pb @ ''|PID='' @ pid @ '' CMD='' @ name"

definition hasShape :: "string \<Rightarrow> string \<Rightarrow> bool" where
  "hasShape arrow line =
     (\<exists>pre a pa b pb pid name rest.
        line = pre @ shapeLine a pa arrow b pb pid name @ rest
        \<and> a \<noteq> [] \<and> list_all (cls_ok AnyChar) a \<and> b \<noteq> [] \<and> list_all (cls_ok AnyChar) b
        \<and> name \<noteq> [] \<and> list_all (cls_ok AnyChar) name
        \<and> decimalText pa \<and> decimalText pb \<and> decimalText pid)"

subsection \<open>Invariants of the three stores\<close>

text \<open>
  \<open>nodesOK\<close>: a node is stored under its own process id, carries a graph node and lists
  no port twice. \<open>endpointsOK\<close>: a registered endpoint belongs to a stored node that has
  the endpoint's IP and lists its port. \<open>edgesOK\<close>: both ends of an edge name a stored
  node and one of its ports. \<open>wf\<close> is their conjunction; it holds in the empty state and
  after every round of the loop.
\<close>

definition nodesOK :: "State \<Rightarrow> bool" where
  "nodesOK st =
     (\<forall>pid n. nodes st pid = Some n \<longrightarrow>
        ProcessID n = pid \<and> DotNode n \<noteq> None \<and> distinct (LocalPorts n))"

definition endpointsOK :: "State \<Rightarrow> bool" where
  "endpointsOK st =
     (\<forall>ep pid. knownEndpoints st ep = Some pid \<longrightarrow>
        (\<exists>n. nodes st pid = Some n \<and> NetworkEndpoint.Port ep \<in> set (LocalPorts n)
              \<and> LocalIP n = NetworkEndpoint.IP ep))"

definition hasPort :: "State \<Rightarrow> ProcessEndpoint \<Rightarrow> bool" where
  "hasPort st pe =
     (case nodes st (PID pe) of
        None \<Rightarrow> False
      | Some n \<Rightarrow> ProcessEndpoint.Port pe \<in> set (LocalPorts n))"

definition edgesOK :: "State \<Rightarrow> bool" where
  "edgesOK st = (\<forall>e \<in> edges st. hasPort st (Source e) \<and> hasPort st (Dest e))"

definition wf :: "State \<Rightarrow> bool" where
  "wf st = (nodesOK st \<and> endpointsOK st \<and> edgesOK st)"

text \<open>
  The two conflicts of an observation with the stores: its process id is known with
  another name or another local IP; its local endpoint is registered to another process
  id. \<open>localNode st l\<close>: the node of the observation's process is stored with the
  observation's identity and lists its local port.
\<close>

definition identityConflict :: "State \<Rightarrow> InputLine \<Rightarrow> bool" where
  "identityConflict st parsedLine =
     (case nodes st (InputLine.ProcessID parsedLine) of
        None \<Rightarrow> False
      | Some n \<Rightarrow> ProcessName n \<noteq> InputLine.ProcessName parsedLine
                  \<or> LocalIP n \<noteq> InputLine.LocalIP parsedLine)"

definition endpointConflict :: "State \<Rightarrow> InputLine \<Rightarrow> bool" where
  "endpointConflict st parsedLine =
     (case knownEndpoints st (localEp parsedLine) of
        None \<Rightarrow> False
      | Some e \<Rightarrow> e \<noteq> InputLine.ProcessID parsedLine)"

definition localNode :: "State \<Rightarrow> InputLine \<Rightarrow> bool" where
  "localNode st parsedLine =
     (case nodes st (InputLine.ProcessID parsedLine) of
        None \<Rightarrow> False
      | Some n \<Rightarrow> ProcessID n = InputLine.ProcessID parsedLine
                  \<and> ProcessName n = InputLine.ProcessName parsedLine
                  \<and> LocalIP n = InputLine.LocalIP parsedLine
                  \<and> LocalPort parsedLine \<in> set (LocalPorts n))"

text \<open>
  \<open>mirror a b\<close>: the observation \<open>b\<close> is the observation \<open>a\<close> seen from the other side
  (endpoints swapped, direction swapped). \<open>correlateBoth st a b\<close> handles \<open>a\<close>, then \<open>b\<close>.
\<close>

definition noDuplicatePorts :: "State \<Rightarrow> bool" where
  "noDuplicatePorts st = (\<forall>pid n. nodes st pid = Some n \<longrightarrow> distinct (LocalPorts n))"



subsection \<open>Concrete inputs\<close>

text \<open>
  The two lines of the example scenario, what \<open>parseLine\<close> makes of them, and the states
  the loop goes through on them.
\<close>

definition exampleLine1 :: string where
  "exampleLine1 = ''10.0.0.5:8080<-10.0.0.9:443|PID=100 CMD=svcA''"

definition exampleLine2 :: string where
  "exampleLine2 = ''10.0.0.9:443->10.0.0.5:8080|PID=200 CMD=svcB''"

definition exampleObs1 :: InputLine where
  "exampleObs1 = \<lparr>Dir = Local2Remote, RemoteIP = ''10.0.0.5'', RemotePort = 8080,
        InputLine.LocalIP = ''10.0.0.9'', LocalPort = 443, InputLine.ProcessID = 100,
        InputLine.ProcessName = ''svcA''\<rparr>"

definition exampleObs2 :: InputLine where
  "exampleObs2 = \<lparr>Dir = Remote2Local, RemoteIP = ''10.0.0.9'', RemotePort = 443,
        InputLine.LocalIP = ''10.0.0.5'', LocalPort = 8080, InputLine.ProcessID = 200,
        InputLine.ProcessName = ''svcB''\<rparr>"

definition exampleNode1 :: ProcessEndpoints where
  "exampleNode1 = \<lparr>ProcessID = 100, ProcessName = ''svcA'', LocalIP = ''10.0.0.9'',
       LocalPorts = [443],
       DotNode = Some (''PID=100'' @ [CHR 0x0A] @ ''Name=svcA'' @ [CHR 0x0A] @ ''IP=10.0.0.9'')\<rparr>"

definition exampleNode2 :: ProcessEndpoints where
  "exampleNode2 = \<lparr>ProcessID = 200, ProcessName = ''svcB'', LocalIP = ''10.0.0.5'',
       LocalPorts = [8080],
       DotNode = Some (''PID=200'' @ [CHR 0x0A] @ ''Name=svcB'' @ [CHR 0x0A] @ ''IP=10.0.0.5'')\<rparr>"

definition exampleFinal :: State where
  "exampleFinal =
    \<lparr>graph = \<lparr>gNodes = [''PID=100'' @ [CHR 0x0A] @ ''Name=svcA'' @ [CHR 0x0A] @ ''IP=10.0.0.9'',
                         ''PID=200'' @ [CHR 0x0A] @ ''Name=svcB'' @ [CHR 0x0A] @ ''IP=10.0.0.5''],
               gEdges = [(''PID=100'' @ [CHR 0x0A] @ ''Name=svcA'' @ [CHR 0x0A] @ ''IP=10.0.0.9'',
                          ''PID=200'' @ [CHR 0x0A] @ ''Name=svcB'' @ [CHR 0x0A] @ ''IP=10.0.0.5'',
                          ''10.0.0.9:443->10.0.0.5:8080'')]\<rparr>,
      nodes = [100 \<mapsto> exampleNode1, 200 \<mapsto> exampleNode2],
      knownEndpoints = [\<lparr>NetworkEndpoint.IP = ''10.0.0.9'', NetworkEndpoint.Port = 443\<rparr> \<mapsto> 100,
                        \<lparr>NetworkEndpoint.IP = ''10.0.0.5'', NetworkEndpoint.Port = 8080\<rparr> \<mapsto> 200],
      edges = {\<lparr>Source = \<lparr>PID = 100, ProcessEndpoint.Port = 443\<rparr>,
                Dest = \<lparr>PID = 200, ProcessEndpoint.Port = 8080\<rparr>\<rparr>}\<rparr>"

definition exampleMid :: State where
  "exampleMid =
    \<lparr>graph = \<lparr>gNodes = [''PID=100'' @ [CHR 0x0A] @ ''Name=svcA'' @ [CHR 0x0A] @ ''IP=10.0.0.9''],
               gEdges = []\<rparr>,
      nodes = [100 \<mapsto> exampleNode1],
      knownEndpoints = [\<lparr>NetworkEndpoint.IP = ''10.0.0.9'', NetworkEndpoint.Port = 443\<rparr> \<mapsto> 100],
      edges = {}\<rparr>"

text \<open>
  Further inputs: two lines of one process whose second remote endpoint is its own first
  local endpoint; a line whose addresses are no IP addresses; three lines the noise filter
  drops; a line that reports pid 100 under another name.
\<close>

definition exampleEdge :: Edge where
  "exampleEdge = \<lparr>Source = \<lparr>PID = 100, ProcessEndpoint.Port = 443\<rparr>,
                  Dest = \<lparr>PID = 200, ProcessEndpoint.Port = 8080\<rparr>\<rparr>"

definition selfLine1 :: string where
  "selfLine1 = ''10.0.0.2:5000->10.0.0.1:80|PID=1 CMD=x''"

definition selfLine2 :: string where
  "selfLine2 = ''10.0.0.1:80->10.0.0.1:6000|PID=1 CMD=x''"

definition selfObs1 :: InputLine where
  "selfObs1 = \<lparr>Dir = Remote2Local, RemoteIP = ''10.0.0.2'', RemotePort = 5000,
        InputLine.LocalIP = ''10.0.0.1'', LocalPort = 80, InputLine.ProcessID = 1,
        InputLine.ProcessName = ''x''\<rparr>"

definition selfObs2 :: InputLine where
  "selfObs2 = \<lparr>Dir = Remote2Local, RemoteIP = ''10.0.0.1'', RemotePort = 80,
        InputLine.LocalIP = ''10.0.0.1'', LocalPort = 6000, InputLine.ProcessID = 1,
        InputLine.ProcessName = ''x''\<rparr>"

definition selfEdge :: Edge where
  "selfEdge = \<lparr>Source = \<lparr>PID = 1, ProcessEndpoint.Port = 80\<rparr>,
               Dest = \<lparr>PID = 1, ProcessEndpoint.Port = 6000\<rparr>\<rparr>"

definition badIpLine :: string where
  "badIpLine = ''a:1->b:2|PID=3 CMD=x''"

definition badIpObs :: InputLine where
  "badIpObs = \<lparr>Dir = Remote2Local, RemoteIP = ''a'', RemotePort = 1,
        InputLine.LocalIP = ''b'', LocalPort = 2, InputLine.ProcessID = 3,
        InputLine.ProcessName = ''x''\<rparr>"

definition loopbackLine :: string where
  "loopbackLine = ''127.0.0.1:80->10.0.0.1:90|PID=1 CMD=x''"

definition loopbackObs :: InputLine where
  "loopbackObs = \<lparr>Dir = Remote2Local, RemoteIP = ''127.0.0.1'', RemotePort = 80,
        InputLine.LocalIP = ''10.0.0.1'', LocalPort = 90, InputLine.ProcessID = 1,
        InputLine.ProcessName = ''x''\<rparr>"

definition zeroPortLine :: string where
  "zeroPortLine = ''10.0.0.2:0->10.0.0.1:90|PID=1 CMD=x''"

definition zeroPortObs :: InputLine where
  "zeroPortObs = \<lparr>Dir = Remote2Local, RemoteIP = ''10.0.0.2'', RemotePort = 0,
        InputLine.LocalIP = ''10.0.0.1'', LocalPort = 90, InputLine.ProcessID = 1,
        InputLine.ProcessName = ''x''\<rparr>"

definition chattyLine :: string where
  "chattyLine = ''10.0.0.2:80->10.0.0.1:90|PID=1 CMD=k3s-server''"

definition chattyObs :: InputLine where
  "chattyObs = \<lparr>Dir = Remote2Local, RemoteIP = ''10.0.0.2'', RemotePort = 80,
        InputLine.LocalIP = ''10.0.0.1'', LocalPort = 90, InputLine.ProcessID = 1,
        InputLine.ProcessName = ''k3s-server''\<rparr>"

definition conflictLine :: string where
  "conflictLine = ''10.0.0.7:1->10.0.0.9:443|PID=100 CMD=other''"

definition conflictObs :: InputLine where
  "conflictObs = \<lparr>Dir = Remote2Local, RemoteIP = ''10.0.0.7'', RemotePort = 1,
        InputLine.LocalIP = ''10.0.0.9'', LocalPort = 443, InputLine.ProcessID = 100,
        InputLine.ProcessName = ''other''\<rparr>"

text \<open>
  What the Go standard library calls a loopback IP (\<open>net.IP.IsLoopback\<close>): an IPv4 or
  IPv4-mapped address whose first octet is 127, or the IPv6 address \<open>::1\<close>
  (\<open>net.IPv6loopback\<close>). The source does not call it; it is the notion of loopback IP that
  the statements on the noise filter refer to. With it, a line whose remote address is \<open>::1\<close>, and the state
  the loop reaches on that line.
\<close>

definition IPv6loopback :: IP where
  "IPv6loopback = [0, 0, 0, 0, 0, 0, 0, 0, 0, 0, 0, 0, 0, 0, 0, 1]"

definition IsLoopback :: "IP \<Rightarrow> bool" where
  "IsLoopback ip = (if To4 ip \<noteq> [] then hd (To4 ip) = 127 else ip = IPv6loopback)"

definition v6LoopbackLine :: string where
  "v6LoopbackLine = ''::1:80->10.0.0.1:90|PID=1 CMD=x''"

definition v6LoopbackObs :: InputLine where
  "v6LoopbackObs = \<lparr>Dir = Remote2Local, RemoteIP = ''::1'', RemotePort = 80,
        InputLine.LocalIP = ''10.0.0.1'', LocalPort = 90, InputLine.ProcessID = 1,
        InputLine.ProcessName = ''x''\<rparr>"

definition v6LoopbackState :: State where
  "v6LoopbackState =
    \<lparr>graph = \<lparr>gNodes = [''PID=1'' @ [CHR 0x0A] @ ''Name=x'' @ [CHR 0x0A] @ ''IP=10.0.0.1''],
               gEdges = []\<rparr>,
      nodes = [1 \<mapsto> \<lparr>ProcessID = 1, ProcessName = ''x'', LocalIP = ''10.0.0.1'',
                        LocalPorts = [90],
                        DotNode = Some (''PID=1'' @ [CHR 0x0A] @ ''Name=x'' @ [CHR 0x0A]
                                        @ ''IP=10.0.0.1'')\<rparr>],
      knownEndpoints = [\<lparr>NetworkEndpoint.IP = ''10.0.0.1'', NetworkEndpoint.Port = 90\<rparr> \<mapsto> 1],
      edges = {}\<rparr>"

definition selfNodeId :: string where
  "selfNodeId = ''PID=1'' @ [CHR 0x0A] @ ''Name=x'' @ [CHR 0x0A] @ ''IP=10.0.0.1''"

definition selfMid :: State where
  "selfMid =
    \<lparr>graph = \<lparr>gNodes = [selfNodeId], gEdges = []\<rparr>,
      nodes = [1 \<mapsto> \<lparr>ProcessID = 1, ProcessName = ''x'', LocalIP = ''10.0.0.1'',
                        LocalPorts = [80], DotNode = Some selfNodeId\<rparr>],
      knownEndpoints = [\<lparr>NetworkEndpoint.IP = ''10.0.0.1'', NetworkEndpoint.Port = 80\<rparr> \<mapsto> 1],
      edges = {}\<rparr>"

definition selfFinal :: State where
  "selfFinal =
    \<lparr>graph = \<lparr>gNodes = [selfNodeId],
               gEdges = [(selfNodeId, selfNodeId, ''10.0.0.1:80->10.0.0.1:6000'')]\<rparr>,
      nodes = [1 \<mapsto> \<lparr>ProcessID = 1, ProcessName = ''x'', LocalIP = ''10.0.0.1'',
                        LocalPorts = [80, 6000], DotNode = Some selfNodeId\<rparr>],
      knownEndpoints = [\<lparr>NetworkEndpoint.IP = ''10.0.0.1'', NetworkEndpoint.Port = 80\<rparr> \<mapsto> 1,
                        \<lparr>NetworkEndpoint.IP = ''10.0.0.1'', NetworkEndpoint.Port = 6000\<rparr> \<mapsto> 1],
      edges = {selfEdge}\<rparr>"

section \<open>The backtracking search and the meaning of the patterns\<close>

lemma tryDown_Some: "tryDown f n = Some r \<Longrightarrow> \<exists>k. 0 < k \<and> k \<le> n \<and> f k = Some r"
proof (induction n)
  case 0
  then show ?case by simp
next
  case (Suc n)
  show ?case
  proof (cases "f (Suc n)")
    case None
    with Suc obtain k where "0 < k" "k \<le> n" "f k = Some r" by auto
    then show ?thesis by (intro exI[of _ k]) simp
  next
    case (Some a)
    with Suc.prems show ?thesis by (intro exI[of _ "Suc n"]) simp
  qed
qed

lemma tryDown_None: "tryDown f n = None \<Longrightarrow> 0 < k \<Longrightarrow> k \<le> n \<Longrightarrow> f k = None"
proof (induction n)
  case 0
  then show ?case by simp
next
  case (Suc n)
  then show ?case by (cases "k = Suc n") (auto split: option.splits)
qed

lemma take_takeWhile_ok:
  "k \<le> length (takeWhile P s) \<Longrightarrow> list_all P (take k s)"
proof (induction s arbitrary: k)
  case Nil
  then show ?case by simp
next
  case (Cons a s)
  then show ?case by (cases k) (auto split: if_splits)
qed

lemma matchHere_sound:
  "matchHere re s = Some caps \<Longrightarrow> \<exists>rest. fits re caps s rest"
proof (induction re arbitrary: s caps)
  case Nil
  then show ?case by simp
next
  case (Cons it r)
  show ?case
  proof (cases it)
    case (Lit l)
    with Cons.prems have l: "take (length l) s = l" and m: "matchHere r (drop (length l) s) = Some caps"
      by (auto split: if_splits)
    from Cons.IH[OF m] obtain rest where "fits r caps (drop (length l) s) rest" ..
    moreover have "s = l @ drop (length l) s" using l by (metis append_take_drop_id)
    ultimately show ?thesis using Lit by auto
  next
    case (Group c)
    with Cons.prems obtain k where k: "0 < k" "k \<le> length (takeWhile (cls_ok c) s)"
      and f: "map_option ((#) (take k s)) (matchHere r (drop k s)) = Some caps"
      by (auto dest!: tryDown_Some)
    from f obtain cs where cs: "matchHere r (drop k s) = Some cs" "caps = take k s # cs" by auto
    from Cons.IH[OF cs(1)] obtain rest where r: "fits r cs (drop k s) rest" ..
    have "k \<le> length s" using k(2) length_takeWhile_le[of "cls_ok c" s] by linarith
    then have ne: "take k s \<noteq> []" using k(1) by auto
    have "list_all (cls_ok c) (take k s)" using k(2) by (rule take_takeWhile_ok)
    with r ne cs(2) have "fits (Group c # r) caps s rest"
      apply simp
      apply (rule exI[of _ "drop k s"])
      apply simp
      done
    then show ?thesis using Group by blast
  qed
qed

lemma length_le_takeWhile: "list_all P g \<Longrightarrow> length g \<le> length (takeWhile P (g @ t))"
  by (induction g) auto

lemma matchHere_complete:
  "fits re caps s rest \<Longrightarrow> matchHere re s \<noteq> None"
proof (induction re arbitrary: s caps)
  case Nil
  then show ?case by simp
next
  case (Cons it r)
  show ?case
  proof (cases it)
    case (Lit l)
    with Cons.prems obtain t where "s = l @ t" "fits r caps t rest" by auto
    with Cons.IH[of caps t] Lit show ?thesis by auto
  next
    case (Group c)
    with Cons.prems obtain g cs t where g: "caps = g # cs" "g \<noteq> []" "list_all (cls_ok c) g"
      "s = g @ t" "fits r cs t rest" by auto
    let ?f = "\<lambda>n. map_option ((#) (take n s)) (matchHere r (drop n s))"
    have "?f (length g) \<noteq> None" using Cons.IH[OF g(5)] g(4) by auto
    moreover have "0 < length g" using g(2) by simp
    moreover have "length g \<le> length (takeWhile (cls_ok c) s)"
      using g(3,4) length_le_takeWhile by blast
    ultimately have "tryDown ?f (length (takeWhile (cls_ok c) s)) \<noteq> None"
    proof -
      assume a: "?f (length g) \<noteq> None" "0 < length g"
        "length g \<le> length (takeWhile (cls_ok c) s)"
      show ?thesis
      proof
        assume "tryDown ?f (length (takeWhile (cls_ok c) s)) = None"
        from tryDown_None[OF this a(2) a(3)] a(1) show False by simp
      qed
    qed
    then show ?thesis using Group by simp
  qed
qed

lemma matchHere_last_greedy:
  "matchHere (re @ [Group AnyChar]) s = Some caps \<Longrightarrow> CHR 0x0A \<notin> set s \<Longrightarrow>
   fits (re @ [Group AnyChar]) caps s []"
proof (induction re arbitrary: s caps)
  case Nil
  have tw: "takeWhile (cls_ok AnyChar) s = s" using Nil.prems(2) by (auto intro: takeWhile_eq_all_conv[THEN iffD2])
  show ?case
  proof (cases s)
    case Nil
    with \<open>matchHere ([] @ [Group AnyChar]) s = Some caps\<close> show ?thesis by simp
  next
    case (Cons a list)
    then have "length s = Suc (length list)" by simp
    with Nil.prems(1) tw have "caps = [s]" by simp
    moreover have "list_all (cls_ok AnyChar) s" using Nil.prems(2) by (auto simp: list_all_iff)
    ultimately show ?thesis using Cons by simp
  qed
next
  case (Cons it r)
  show ?case
  proof (cases it)
    case (Lit l)
    with Cons.prems have l: "take (length l) s = l"
      and m: "matchHere (r @ [Group AnyChar]) (drop (length l) s) = Some caps"
      by (auto split: if_splits)
    have "CHR 0x0A \<notin> set (drop (length l) s)" using Cons.prems(2) by (meson in_set_dropD)
    from Cons.IH[OF m this] have "fits (r @ [Group AnyChar]) caps (drop (length l) s) []" .
    moreover have "s = l @ drop (length l) s" using l by (metis append_take_drop_id)
    ultimately show ?thesis using Lit by auto
  next
    case (Group c)
    with Cons.prems obtain k where k: "0 < k" "k \<le> length (takeWhile (cls_ok c) s)"
      and f: "map_option ((#) (take k s)) (matchHere (r @ [Group AnyChar]) (drop k s)) = Some caps"
      by (auto dest!: tryDown_Some)
    from f obtain cs where cs: "matchHere (r @ [Group AnyChar]) (drop k s) = Some cs" "caps = take k s # cs" by auto
    have "CHR 0x0A \<notin> set (drop k s)" using Cons.prems(2) by (meson in_set_dropD)
    from Cons.IH[OF cs(1) this] have r: "fits (r @ [Group AnyChar]) cs (drop k s) []" .
    have "k \<le> length s" using k(2) length_takeWhile_le[of "cls_ok c" s] by linarith
    then have ne: "take k s \<noteq> []" using k(1) by auto
    have "list_all (cls_ok c) (take k s)" using k(2) by (rule take_takeWhile_ok)
    with r ne cs(2) have "fits (Group c # r @ [Group AnyChar]) caps s []"
      apply simp
      apply (rule exI[of _ "drop k s"])
      apply simp
      done
    then show ?thesis using Group by simp
  qed
qed

lemma split_eq:
  "x @ c # y = x' @ c # y' \<Longrightarrow> c \<notin> set x \<or> c \<notin> set y' \<Longrightarrow> c \<notin> set x' \<or> c \<notin> set y \<Longrightarrow>
   x = x' \<and> y = y'"
  by (auto simp: append_eq_append_conv2 Cons_eq_append_conv append_eq_Cons_conv)

section \<open>A line of the input format is read in one way only\<close>

lemma digits_notin:
  "list_all isDigit d \<Longrightarrow>
     CHR ''|'' \<notin> set d \<and> CHR ''<'' \<notin> set d \<and> CHR ''>'' \<notin> set d \<and> CHR '':'' \<notin> set d
     \<and> CHR '' '' \<notin> set d \<and> CHR ''-'' \<notin> set d \<and> CHR 0x0A \<notin> set d"
proof -
  assume "list_all isDigit d"
  then have *: "\<And>c. \<not> isDigit c \<Longrightarrow> c \<notin> set d" by (auto simp: list_all_iff)
  show ?thesis by (intro conjI *) (simp_all add: isDigit_def)
qed

lemma plain_notin:
  "plainText a \<Longrightarrow>
     CHR ''|'' \<notin> set a \<and> CHR ''<'' \<notin> set a \<and> CHR ''>'' \<notin> set a \<and> CHR 0x0A \<notin> set a"
proof -
  assume "plainText a"
  then have *: "\<And>c. c \<in> set ''<>|'' \<or> c = CHR 0x0A \<Longrightarrow> c \<notin> set a"
    by (auto simp: list_all_iff plainText_def)
  show ?thesis by (intro conjI *) simp_all
qed

lemma shape_unique:
  assumes arrow: "arrow = ''<-'' \<or> arrow = ''->''"
    and pl: "plainText a" "plainText b" "plainText name"
    and dg: "list_all isDigit pa" "list_all isDigit pb" "list_all isDigit pid"
    and dg': "list_all isDigit pa'" "list_all isDigit pb'" "list_all isDigit pid'"
    and eq: "shapeLine a pa arrow b pb pid name = shapeLine a' pa' arrow b' pb' pid' name'"
  shows "a = a' \<and> pa = pa' \<and> b = b' \<and> pb = pb' \<and> pid = pid' \<and> name = name'"
proof -
  note n = plain_notin[OF pl(1)] plain_notin[OF pl(2)] plain_notin[OF pl(3)]
    digits_notin[OF dg(1)] digits_notin[OF dg(2)] digits_notin[OF dg(3)]
  note n' = digits_notin[OF dg'(1)] digits_notin[OF dg'(2)] digits_notin[OF dg'(3)]
  let ?u = "a @ CHR '':'' # pa @ arrow @ b @ CHR '':'' # pb"
  let ?u' = "a' @ CHR '':'' # pa' @ arrow @ b' @ CHR '':'' # pb'"
  let ?v = "''PID='' @ pid @ CHR '' '' # ''CMD='' @ name"
  let ?v' = "''PID='' @ pid' @ CHR '' '' # ''CMD='' @ name'"
  have bar: "CHR ''|'' \<notin> set ?u" "CHR ''|'' \<notin> set ?v"
    using arrow n by auto
  have "?u @ CHR ''|'' # ?v = ?u' @ CHR ''|'' # ?v'"
    using eq by (simp add: shapeLine_def)
  from split_eq[OF this disjI1[OF bar(1)] disjI2[OF bar(2)]]
  have u: "?u = ?u'" and v: "?v = ?v'" by simp_all
  from v have "pid @ CHR '' '' # (''CMD='' @ name) = pid' @ CHR '' '' # (''CMD='' @ name')" by simp
  from split_eq[OF this] n n' have pid: "pid = pid'" and name: "name = name'" by simp_all
  have halves: "a @ CHR '':'' # pa = a' @ CHR '':'' # pa' \<and> b @ CHR '':'' # pb = b' @ CHR '':'' # pb'"
  proof (cases "arrow = ''<-''")
    case True
    have lt: "CHR ''<'' \<notin> set (a @ CHR '':'' # pa)" "CHR ''<'' \<notin> set (CHR ''-'' # b @ CHR '':'' # pb)"
      using n by simp_all
    have "(a @ CHR '':'' # pa) @ CHR ''<'' # (CHR ''-'' # b @ CHR '':'' # pb)
        = (a' @ CHR '':'' # pa') @ CHR ''<'' # (CHR ''-'' # b' @ CHR '':'' # pb')"
      using u True by simp
    from split_eq[OF this disjI1[OF lt(1)] disjI2[OF lt(2)]] show ?thesis by simp
  next
    case False
    with arrow have ar: "arrow = ''->''" by simp
    have gt: "CHR ''>'' \<notin> set (a @ CHR '':'' # pa @ ''-'')" "CHR ''>'' \<notin> set (b @ CHR '':'' # pb)"
      using n by simp_all
    have "(a @ CHR '':'' # pa @ ''-'') @ CHR ''>'' # (b @ CHR '':'' # pb)
        = (a' @ CHR '':'' # pa' @ ''-'') @ CHR ''>'' # (b' @ CHR '':'' # pb')"
      using u ar by simp
    from split_eq[OF this disjI1[OF gt(1)] disjI2[OF gt(2)]]
    have 1: "a @ CHR '':'' # pa @ ''-'' = a' @ CHR '':'' # pa' @ ''-''"
      and 2: "b @ CHR '':'' # pb = b' @ CHR '':'' # pb'" by simp_all
    from 1 have "(a @ CHR '':'' # pa) @ ''-'' = (a' @ CHR '':'' # pa') @ ''-''" by simp
    then have "a @ CHR '':'' # pa = a' @ CHR '':'' # pa'" by (simp only: append_same_eq)
    with 2 show ?thesis by simp
  qed
  from halves have h1: "a @ CHR '':'' # pa = a' @ CHR '':'' # pa'"
    and h2: "b @ CHR '':'' # pb = b' @ CHR '':'' # pb'" by simp_all
  from split_eq[OF h1] n n' have "a = a' \<and> pa = pa'" by simp
  moreover from split_eq[OF h2] n n' have "b = b' \<and> pb = pb'" by simp
  ultimately show ?thesis using pid name by simp
qed

lemma cls_ok_Digit: "list_all (cls_ok Digit) d = list_all isDigit d"
  by (simp add: list_all_iff)

lemma fits_regexArrow_intro:
  assumes "a \<noteq> []" "list_all (cls_ok AnyChar) a" "b \<noteq> []" "list_all (cls_ok AnyChar) b"
    "name \<noteq> []" "list_all (cls_ok AnyChar) name"
    "decimalText pa" "decimalText pb" "decimalText pid"
  shows "fits (regexArrow arrow) [a, pa, b, pb, pid, name]
           (shapeLine a pa arrow b pb pid name @ rest) rest"
  using assms by (simp add: regexArrow_def shapeLine_def decimalText_def cls_ok_Digit)

lemma fits_regexArrow_elim:
  assumes "fits (regexArrow arrow) caps s rest"
  shows "\<exists>a pa b pb pid name. caps = [a, pa, b, pb, pid, name]
            \<and> a \<noteq> [] \<and> list_all (cls_ok AnyChar) a \<and> b \<noteq> [] \<and> list_all (cls_ok AnyChar) b
            \<and> name \<noteq> [] \<and> list_all (cls_ok AnyChar) name
            \<and> decimalText pa \<and> decimalText pb \<and> decimalText pid
            \<and> s = shapeLine a pa arrow b pb pid name @ rest"
  using assms by (auto simp: regexArrow_def shapeLine_def decimalText_def cls_ok_Digit)

section \<open>What parseLine returns\<close>

lemma plain_any: "plainText a \<Longrightarrow> a \<noteq> [] \<and> list_all (cls_ok AnyChar) a"
  by (auto simp: plainText_def list_all_iff)

lemma regexArrow_snoc:
  "regexArrow arrow =
     [Group AnyChar, Lit '':'', Group Digit, Lit arrow, Group AnyChar, Lit '':'', Group Digit,
      Lit ''|PID='', Group Digit, Lit '' CMD=''] @ [Group AnyChar]"
  by (simp add: regexArrow_def)

lemma matchHere_shape:
  assumes arrow: "arrow = ''<-'' \<or> arrow = ''->''"
    and pl: "plainText a" "plainText b" "plainText name"
    and dg: "decimalText pa" "decimalText pb" "decimalText pid"
  shows "matchHere (regexArrow arrow) (shapeLine a pa arrow b pb pid name)
           = Some [a, pa, b, pb, pid, name]"
proof -
  let ?L = "shapeLine a pa arrow b pb pid name"
  from dg have dd: "list_all isDigit pa" "list_all isDigit pb" "list_all isDigit pid"
    by (simp_all add: decimalText_def)
  note n = plain_notin[OF pl(1)] plain_notin[OF pl(2)] plain_notin[OF pl(3)]
    digits_notin[OF dd(1)] digits_notin[OF dd(2)] digits_notin[OF dd(3)]
  have nl: "CHR 0x0A \<notin> set ?L"
    using arrow n by (auto simp: shapeLine_def)
  have "fits (regexArrow arrow) [a, pa, b, pb, pid, name] (?L @ []) []"
    using plain_any[OF pl(1)] plain_any[OF pl(2)] plain_any[OF pl(3)] dg
    by (intro fits_regexArrow_intro) simp_all
  then have "matchHere (regexArrow arrow) ?L \<noteq> None"
    using matchHere_complete[of "regexArrow arrow" _ "?L" "[]"] by simp
  then obtain caps where caps: "matchHere (regexArrow arrow) ?L = Some caps" by auto
  then have "fits (regexArrow arrow) caps ?L []"
    using matchHere_last_greedy[OF _ nl] regexArrow_snoc[of arrow] by metis
  from fits_regexArrow_elim[OF this]
  obtain a' pa' b' pb' pid' name' where c: "caps = [a', pa', b', pb', pid', name']"
    and d': "decimalText pa'" "decimalText pb'" "decimalText pid'"
    and L: "?L = shapeLine a' pa' arrow b' pb' pid' name'" by auto
  from d' have dd': "list_all isDigit pa'" "list_all isDigit pb'" "list_all isDigit pid'"
    by (simp_all add: decimalText_def)
  from shape_unique[OF arrow pl dd dd' L] c caps show ?thesis by simp
qed

lemma FindStringSubmatch_start:
  "matchHere re s = Some m \<Longrightarrow> FindStringSubmatch re s = Some m"
  by (cases s) simp_all

lemma FindStringSubmatch_sound:
  "FindStringSubmatch re s = Some m \<Longrightarrow> \<exists>pre t. s = pre @ t \<and> matchHere re t = Some m"
proof (induction s)
  case Nil
  then show ?case by simp
next
  case (Cons c s)
  show ?case
  proof (cases "matchHere re (c # s)")
    case None
    with Cons obtain pre t where "s = pre @ t" "matchHere re t = Some m" by auto
    then have "c # s = (c # pre) @ t \<and> matchHere re t = Some m" by simp
    then show ?thesis by blast
  next
    case (Some a)
    with Cons.prems have "c # s = [] @ (c # s) \<and> matchHere re (c # s) = Some m" by simp
    then show ?thesis by blast
  qed
qed

lemma FindStringSubmatch_shape:
  "FindStringSubmatch (regexArrow arrow) line = Some m \<Longrightarrow>
     \<exists>pre a pa b pb pid name rest.
        m = [a, pa, b, pb, pid, name]
        \<and> line = pre @ shapeLine a pa arrow b pb pid name @ rest
        \<and> a \<noteq> [] \<and> list_all (cls_ok AnyChar) a \<and> b \<noteq> [] \<and> list_all (cls_ok AnyChar) b
        \<and> name \<noteq> [] \<and> list_all (cls_ok AnyChar) name
        \<and> decimalText pa \<and> decimalText pb \<and> decimalText pid"
proof -
  assume "FindStringSubmatch (regexArrow arrow) line = Some m"
  from FindStringSubmatch_sound[OF this] obtain pre t
    where t: "line = pre @ t" "matchHere (regexArrow arrow) t = Some m" by auto
  from matchHere_sound[OF t(2)] obtain rest where "fits (regexArrow arrow) m t rest" ..
  from fits_regexArrow_elim[OF this] t(1) show ?thesis by blast
qed

lemma FindStringSubmatch_hasShape:
  "FindStringSubmatch (regexArrow arrow) line = Some m \<Longrightarrow> hasShape arrow line"
  unfolding hasShape_def by (drule FindStringSubmatch_shape) blast

lemma no_lt_no_match:
  assumes "CHR ''<'' \<notin> set line"
  shows "FindStringSubmatch regexLocalToRemote line = None"
proof (rule ccontr)
  assume "FindStringSubmatch regexLocalToRemote line \<noteq> None"
  then obtain m where "FindStringSubmatch (regexArrow ''<-'') line = Some m"
    by (auto simp: regexLocalToRemote_def)
  from FindStringSubmatch_shape[OF this] have "CHR ''<'' \<in> set line"
    by (auto simp: shapeLine_def)
  with assms show False by simp
qed

lemma decimal_nonneg_aux: "0 \<le> acc \<Longrightarrow> 0 \<le> foldl (\<lambda>acc c. acc * 10 + int (digitVal c)) acc ds"
  by (induction ds arbitrary: acc) simp_all

lemma decimal_nonneg: "0 \<le> decimal ds"
  by (simp add: decimal_def decimal_nonneg_aux)

lemma ParseInt_decimal:
  "decimalText d \<Longrightarrow> ParseInt d = (if decimal d < 2 ^ 63 then Some (decimal d) else None)"
  by (cases d) (auto simp: ParseInt_def decimalText_def isDigit_def Let_def)

lemma parseLine_of_shapeLine:
  assumes arrow: "arrow = ''<-'' \<or> arrow = ''->''"
    and pl: "plainText a" "plainText b" "plainText name"
    and dg: "decimalText pa" "decimalText pb" "decimalText pid"
    and rg: "decimal pa < 2 ^ 63" "decimal pb < 2 ^ 63" "decimal pid < 2 ^ 63"
  shows "parseLine (shapeLine a pa arrow b pb pid name) =
           Inr \<lparr>Dir = (if arrow = ''<-'' then Local2Remote else Remote2Local),
                RemoteIP = a, RemotePort = decimal pa,
                InputLine.LocalIP = b, LocalPort = decimal pb,
                InputLine.ProcessID = decimal pid, InputLine.ProcessName = name\<rparr>"
proof -
  let ?L = "shapeLine a pa arrow b pb pid name"
  have m: "FindStringSubmatch (regexArrow arrow) ?L = Some [a, pa, b, pb, pid, name]"
    by (rule FindStringSubmatch_start) (rule matchHere_shape[OF arrow pl dg])
  show ?thesis
  proof (cases "arrow = ''<-''")
    case True
    with m rg show ?thesis
      by (simp add: parseLine_def regexLocalToRemote_def Atoi_def ParseInt_decimal dg)
  next
    case False
    with arrow have ar: "arrow = ''->''" by simp
    from dg have dd: "list_all isDigit pa" "list_all isDigit pb" "list_all isDigit pid"
      by (simp_all add: decimalText_def)
    have "CHR ''<'' \<notin> set ?L"
      using plain_notin[OF pl(1)] plain_notin[OF pl(2)] plain_notin[OF pl(3)]
        digits_notin[OF dd(1)] digits_notin[OF dd(2)] digits_notin[OF dd(3)] ar
      by (auto simp: shapeLine_def)
    from no_lt_no_match[OF this] m ar rg show ?thesis
      by (simp add: parseLine_def regexRemoteToLocal_def Atoi_def ParseInt_decimal dg)
  qed
qed

lemma parseLine_Inr:
  assumes "parseLine line = Inr obs"
  shows "\<exists>arrow pre a pa b pb pid name rest.
           (arrow = ''<-'' \<and> Dir obs = Local2Remote \<or> arrow = ''->'' \<and> Dir obs = Remote2Local)
           \<and> line = pre @ shapeLine a pa arrow b pb pid name @ rest
           \<and> a \<noteq> [] \<and> list_all (cls_ok AnyChar) a \<and> b \<noteq> [] \<and> list_all (cls_ok AnyChar) b
           \<and> name \<noteq> [] \<and> list_all (cls_ok AnyChar) name
           \<and> decimalText pa \<and> decimalText pb \<and> decimalText pid
           \<and> obs = \<lparr>Dir = Dir obs, RemoteIP = a, RemotePort = decimal pa,
                     InputLine.LocalIP = b, LocalPort = decimal pb,
                     InputLine.ProcessID = decimal pid, InputLine.ProcessName = name\<rparr>
           \<and> decimal pa < 2 ^ 63 \<and> decimal pb < 2 ^ 63 \<and> decimal pid < 2 ^ 63"
proof (cases "FindStringSubmatch regexLocalToRemote line")
  case None
  with assms obtain m where m: "FindStringSubmatch (regexArrow ''->'') line = Some m"
    by (auto simp: parseLine_def regexRemoteToLocal_def split: option.splits)
  from FindStringSubmatch_shape[OF m] obtain pre a pa b pb pid name rest where
    s: "m = [a, pa, b, pb, pid, name]" "line = pre @ shapeLine a pa ''->'' b pb pid name @ rest"
     "a \<noteq> []" "list_all (cls_ok AnyChar) a" "b \<noteq> []" "list_all (cls_ok AnyChar) b"
     "name \<noteq> []" "list_all (cls_ok AnyChar) name"
     "decimalText pa" "decimalText pb" "decimalText pid" by blast
  from assms None m s have
    "obs = \<lparr>Dir = Remote2Local, RemoteIP = a, RemotePort = decimal pa,
             InputLine.LocalIP = b, LocalPort = decimal pb,
             InputLine.ProcessID = decimal pid, InputLine.ProcessName = name\<rparr>
     \<and> decimal pa < 2 ^ 63 \<and> decimal pb < 2 ^ 63 \<and> decimal pid < 2 ^ 63"
    by (auto simp: parseLine_def regexRemoteToLocal_def Atoi_def ParseInt_decimal split: if_splits)
  with s show ?thesis
    apply -
    apply (rule exI[of _ "''->''"], rule exI[of _ pre], rule exI[of _ a], rule exI[of _ pa],
        rule exI[of _ b], rule exI[of _ pb], rule exI[of _ pid], rule exI[of _ name],
        rule exI[of _ rest])
    apply simp
    done
next
  case (Some m)
  then have m: "FindStringSubmatch (regexArrow ''<-'') line = Some m"
    by (simp add: regexLocalToRemote_def)
  from FindStringSubmatch_shape[OF m] obtain pre a pa b pb pid name rest where
    s: "m = [a, pa, b, pb, pid, name]" "line = pre @ shapeLine a pa ''<-'' b pb pid name @ rest"
     "a \<noteq> []" "list_all (cls_ok AnyChar) a" "b \<noteq> []" "list_all (cls_ok AnyChar) b"
     "name \<noteq> []" "list_all (cls_ok AnyChar) name"
     "decimalText pa" "decimalText pb" "decimalText pid" by blast
  from assms Some s have
    "obs = \<lparr>Dir = Local2Remote, RemoteIP = a, RemotePort = decimal pa,
             InputLine.LocalIP = b, LocalPort = decimal pb,
             InputLine.ProcessID = decimal pid, InputLine.ProcessName = name\<rparr>
     \<and> decimal pa < 2 ^ 63 \<and> decimal pb < 2 ^ 63 \<and> decimal pid < 2 ^ 63"
    by (auto simp: parseLine_def Atoi_def ParseInt_decimal split: if_splits)
  with s show ?thesis
    apply -
    apply (rule exI[of _ "''<-''"], rule exI[of _ pre], rule exI[of _ a], rule exI[of _ pa],
        rule exI[of _ b], rule exI[of _ pb], rule exI[of _ pid], rule exI[of _ name],
        rule exI[of _ rest])
    apply simp
    done
qed

lemma parseLine_no_shape:
  assumes "\<not> hasShape ''<-'' line" "\<not> hasShape ''->'' line"
  shows "parseLine line = Inl (SkippingInvalidLine line)"
proof -
  from assms FindStringSubmatch_hasShape
  have "FindStringSubmatch regexLocalToRemote line = None"
    "FindStringSubmatch regexRemoteToLocal line = None"
    unfolding regexLocalToRemote_def regexRemoteToLocal_def
    by (metis option.exhaust)+
  then show ?thesis by (simp add: parseLine_def)
qed

section \<open>The loopback network\<close>

text \<open>
  \<open>loopbackNet.Contains\<close> holds exactly for a 4-byte address, or a 16-byte IPv4-mapped
  one, whose first octet is 127.
\<close>

lemma upt4: "[0..<4] = [0, 1, 2, 3]"
  by (simp add: upt_rec)

lemma CIDRMask_8_32: "CIDRMask 8 32 = [255, 0, 0, 0]"
  by (simp add: CIDRMask_def upt_rec)

lemma replicate10: "replicate 10 (0::nat) = [0, 0, 0, 0, 0, 0, 0, 0, 0, 0]"
  by (simp add: numeral_eq_Suc)

lemma To4_IPv4: "To4 (IPv4 a b c d) = [a, b, c, d]"
  by (simp add: To4_def IPv4_def v4InV6Prefix_def replicate10)

lemma networkNumberAndMask_loopback: "networkNumberAndMask loopbackNet = ([127, 0, 0, 0], [255, 0, 0, 0])"
  by (simp add: networkNumberAndMask_def loopbackNet_def To4_IPv4 CIDRMask_8_32 Let_def)

lemma To4_length: "To4 ip \<noteq> [] \<Longrightarrow> length (To4 ip) = 4"
  by (auto simp: To4_def split: if_splits)

lemma To4_nil: "To4 ip = [] \<Longrightarrow> length ip \<noteq> 4"
  by (auto simp: To4_def split: if_splits)

lemma Contains_loopbackNet:
  "Contains loopbackNet ip =
     (case To4 ip of
        [a, b, c, d] \<Rightarrow> a AND 255 = 127
      | _ \<Rightarrow> False)"
proof (cases "To4 ip = []")
  case True
  with To4_nil[OF True] show ?thesis
    by (simp add: Contains_def networkNumberAndMask_loopback)
next
  case False
  from To4_length[OF False] obtain a b c d where "To4 ip = [a, b, c, d]"
    by (auto simp: length_Suc_conv numeral_eq_Suc)
  then show ?thesis
    by (simp add: Contains_def networkNumberAndMask_loopback upt4)
qed

lemmas ip_eval = IsValidLine_def Contains_loopbackNet To4_def replicate10
  v4InV6Prefix_def ParseIP_def ParseAddr_def parseIPv4_def isDigit_def
  digitVal_def

section \<open>One round of the loop keeps the invariants\<close>

lemma endpointsOK_D:
  "endpointsOK st \<Longrightarrow> knownEndpoints st ep = Some pid \<Longrightarrow>
     \<exists>n. nodes st pid = Some n \<and> NetworkEndpoint.Port ep \<in> set (LocalPorts n)
          \<and> LocalIP n = NetworkEndpoint.IP ep"
  unfolding endpointsOK_def by blast

lemma hasPort_mono:
  assumes "hasPort st pe"
    and "\<And>pid n. nodes st pid = Some n \<Longrightarrow>
           \<exists>n'. nodes st' pid = Some n' \<and> set (LocalPorts n) \<subseteq> set (LocalPorts n')"
  shows "hasPort st' pe"
proof -
  from assms(1) obtain n where n: "nodes st (PID pe) = Some n"
    "ProcessEndpoint.Port pe \<in> set (LocalPorts n)"
    by (auto simp: hasPort_def split: option.splits)
  from assms(2)[OF n(1)] n(2) show ?thesis by (auto simp: hasPort_def)
qed

lemma upsertNode_grows:
  assumes "upsertNode st l = Inr st1" "nodes st pid = Some n"
  shows "\<exists>n'. nodes st1 pid = Some n' \<and> set (LocalPorts n) \<subseteq> set (LocalPorts n')
           \<and> ProcessID n' = ProcessID n \<and> ProcessName n' = ProcessName n
           \<and> LocalIP n' = LocalIP n \<and> DotNode n' = DotNode n"
  using assms
  by (cases "pid = InputLine.ProcessID l")
     (auto simp: upsertNode_def Let_def split: option.splits if_splits)

lemma upsertNode_others:
  assumes "upsertNode st l = Inr st1"
  shows "knownEndpoints st1 = knownEndpoints st \<and> edges st1 = edges st
         \<and> gEdges (graph st1) = gEdges (graph st)"
  using assms
  by (auto simp: upsertNode_def Let_def graphNode_def split: option.splits if_splits)

lemma upsertNode_local:
  assumes "upsertNode st l = Inr st1"
  shows "localNode st1 l"
  using assms
  by (auto simp: upsertNode_def Let_def localNode_def split: option.splits if_splits)

lemma upsertNode_nodesOK:
  assumes "upsertNode st l = Inr st1" "nodesOK st"
  shows "nodesOK st1"
  using assms unfolding nodesOK_def
  by (auto simp: upsertNode_def Let_def split: option.splits if_splits)

lemma upsertNode_wf:
  assumes u: "upsertNode st l = Inr st1" and w: "wf st"
  shows "wf st1"
proof -
  note g = upsertNode_grows[OF u]
  note o = upsertNode_others[OF u]
  have "nodesOK st1" using upsertNode_nodesOK[OF u] w by (simp add: wf_def)
  moreover have "endpointsOK st1"
    unfolding endpointsOK_def
  proof (intro allI impI)
    fix ep pid assume "knownEndpoints st1 ep = Some pid"
    with o have k: "knownEndpoints st ep = Some pid" by simp
    from w have "endpointsOK st" by (simp add: wf_def)
    from endpointsOK_D[OF this k]
    obtain n where n: "nodes st pid = Some n" "NetworkEndpoint.Port ep \<in> set (LocalPorts n)"
      "LocalIP n = NetworkEndpoint.IP ep" by blast
    from g[OF n(1)] n(2,3)
    show "\<exists>n. nodes st1 pid = Some n \<and> NetworkEndpoint.Port ep \<in> set (LocalPorts n)
              \<and> LocalIP n = NetworkEndpoint.IP ep" by auto
  qed
  moreover have "edgesOK st1"
    unfolding edgesOK_def
  proof
    fix e assume "e \<in> edges st1"
    with o w have "hasPort st (Source e)" "hasPort st (Dest e)"
      by (auto simp: wf_def edgesOK_def)
    moreover have "\<And>pid n. nodes st pid = Some n \<Longrightarrow>
           \<exists>n'. nodes st1 pid = Some n' \<and> set (LocalPorts n) \<subseteq> set (LocalPorts n')"
      using g by blast
    ultimately show "hasPort st1 (Source e) \<and> hasPort st1 (Dest e)"
      using hasPort_mono[of st _ st1] by blast
  qed
  ultimately show ?thesis by (simp add: wf_def)
qed

lemma upsertNode_Inr_iff:
  "nodesOK st \<Longrightarrow> (\<exists>st1. upsertNode st l = Inr st1) = (\<not> identityConflict st l)"
  by (auto simp: upsertNode_def identityConflict_def nodesOK_def Let_def split: option.splits)

lemma upsertNode_conflict:
  "identityConflict st l \<Longrightarrow> \<exists>p. upsertNode st l = Inl p"
  by (auto simp: upsertNode_def identityConflict_def Let_def split: option.splits)

lemma registerLocalEp_Inr_iff:
  "(\<exists>st2. registerLocalEp st l = Inr st2) = (\<not> endpointConflict st l)"
  by (auto simp: registerLocalEp_def endpointConflict_def split: option.splits)

lemma registerLocalEp_effect:
  assumes "registerLocalEp st l = Inr st2"
  shows "nodes st2 = nodes st \<and> edges st2 = edges st \<and> graph st2 = graph st
         \<and> knownEndpoints st2 = (knownEndpoints st)(localEp l \<mapsto> InputLine.ProcessID l)"
  using assms
  by (auto simp: registerLocalEp_def split: option.splits if_splits)

lemma registerLocalEp_wf:
  assumes r: "registerLocalEp st l = Inr st2" and w: "wf st" and ln: "localNode st l"
  shows "wf st2 \<and> localNode st2 l"
proof -
  note e = registerLocalEp_effect[OF r]
  have "nodesOK st2" using w e by (simp add: wf_def nodesOK_def)
  moreover have "endpointsOK st2"
    using w e ln
    by (auto simp: wf_def endpointsOK_def localNode_def localEp_def split: option.splits if_splits)
  moreover have "edgesOK st2" using w e by (simp add: wf_def edgesOK_def hasPort_def)
  moreover have "localNode st2 l" using ln e by (simp add: localNode_def)
  ultimately show ?thesis by (simp add: wf_def)
qed

lemma drawEdge_effect:
  assumes "drawEdge st l = Inr st3"
  shows "nodes st3 = nodes st \<and> knownEndpoints st3 = knownEndpoints st
         \<and> gNodes (graph st3) = gNodes (graph st)
         \<and> edges st3 = (case knownEndpoints st (remoteEp l) of
                           None \<Rightarrow> edges st
                         | Some remotePID \<Rightarrow> insert (edgeOf l remotePID) (edges st))"
  using assms
  by (auto simp: drawEdge_def Let_def split: option.splits if_splits)

lemma edgeOf_hasPort:
  assumes w: "wf st" and ln: "localNode st l" and k: "knownEndpoints st (remoteEp l) = Some remotePID"
  shows "hasPort st (Source (edgeOf l remotePID)) \<and> hasPort st (Dest (edgeOf l remotePID))"
proof -
  from w have "endpointsOK st" by (simp add: wf_def)
  from endpointsOK_D[OF this k]
  obtain n where "nodes st remotePID = Some n" "RemotePort l \<in> set (LocalPorts n)"
    by (auto simp: remoteEp_def)
  then have "hasPort st \<lparr>PID = remotePID, ProcessEndpoint.Port = RemotePort l\<rparr>"
    by (simp add: hasPort_def)
  moreover from ln have "hasPort st \<lparr>PID = InputLine.ProcessID l, ProcessEndpoint.Port = LocalPort l\<rparr>"
    by (auto simp: hasPort_def localNode_def split: option.splits)
  ultimately show ?thesis by (simp add: edgeOf_def)
qed

lemma drawEdge_total:
  assumes w: "wf st" and ln: "localNode st l"
  shows "\<exists>st3. drawEdge st l = Inr st3"
proof (cases "knownEndpoints st (remoteEp l)")
  case None
  then show ?thesis by (simp add: drawEdge_def)
next
  case (Some remotePID)
  from edgeOf_hasPort[OF w ln Some] obtain n where
    "nodes st (PID (Source (edgeOf l remotePID))) = Some n"
    by (auto simp: hasPort_def split: option.splits)
  moreover from this w have "DotNode n \<noteq> None" by (auto simp: wf_def nodesOK_def)
  ultimately show ?thesis using Some
    by (auto simp: drawEdge_def Let_def nodeOf_def split: option.splits)
qed

lemma drawEdge_wf:
  assumes d: "drawEdge st l = Inr st3" and w: "wf st" and ln: "localNode st l"
  shows "wf st3 \<and> localNode st3 l"
proof -
  note e = drawEdge_effect[OF d]
  have hp: "\<And>pe. hasPort st3 pe = hasPort st pe" using e by (simp add: hasPort_def)
  have "nodesOK st3" using w e by (simp add: wf_def nodesOK_def)
  moreover have "endpointsOK st3" using w e by (simp add: wf_def endpointsOK_def)
  moreover have "edgesOK st3"
    using w e edgeOf_hasPort[OF w ln]
    by (auto simp: wf_def edgesOK_def hp split: option.splits)
  moreover have "localNode st3 l" using ln e by (simp add: localNode_def)
  ultimately show ?thesis by (simp add: wf_def)
qed

lemma correlate_wf:
  assumes c: "correlate st l = Inr st'" and w: "wf st"
  shows "wf st' \<and> localNode st' l"
proof -
  from c obtain st1 st2 where s: "upsertNode st l = Inr st1" "registerLocalEp st1 l = Inr st2"
    "drawEdge st2 l = Inr st'"
    by (auto simp: correlate_def split: sum.splits)
  from upsertNode_wf[OF s(1) w] upsertNode_local[OF s(1)]
  have "wf st1" "localNode st1 l" by simp_all
  from registerLocalEp_wf[OF s(2) this] have "wf st2" "localNode st2 l" by simp_all
  from drawEdge_wf[OF s(3) this] show ?thesis .
qed

lemma correlate_Inr_iff:
  assumes w: "wf st"
  shows "(\<exists>st'. correlate st l = Inr st') = (\<not> identityConflict st l \<and> \<not> endpointConflict st l)"
proof
  assume "\<exists>st'. correlate st l = Inr st'"
  then obtain st' st1 st2 where s: "upsertNode st l = Inr st1" "registerLocalEp st1 l = Inr st2"
    by (auto simp: correlate_def split: sum.splits)
  from s(1) w have "\<not> identityConflict st l"
    using upsertNode_Inr_iff[of st l] by (auto simp: wf_def)
  moreover from s(2) have "\<not> endpointConflict st1 l"
    using registerLocalEp_Inr_iff[of st1 l] by auto
  then have "\<not> endpointConflict st l"
    using upsertNode_others[OF s(1)] by (simp add: endpointConflict_def)
  ultimately show "\<not> identityConflict st l \<and> \<not> endpointConflict st l" by simp
next
  assume a: "\<not> identityConflict st l \<and> \<not> endpointConflict st l"
  with w obtain st1 where s1: "upsertNode st l = Inr st1"
    using upsertNode_Inr_iff[of st l] by (auto simp: wf_def)
  from a have "\<not> endpointConflict st1 l"
    using upsertNode_others[OF s1] by (simp add: endpointConflict_def)
  then obtain st2 where s2: "registerLocalEp st1 l = Inr st2"
    using registerLocalEp_Inr_iff[of st1 l] by auto
  from upsertNode_wf[OF s1 w] upsertNode_local[OF s1]
  have "wf st1" "localNode st1 l" by simp_all
  from registerLocalEp_wf[OF s2 this] have "wf st2" "localNode st2 l" by simp_all
  from drawEdge_total[OF this] obtain st3 where "drawEdge st2 l = Inr st3" ..
  with s1 s2 show "\<exists>st'. correlate st l = Inr st'" by (simp add: correlate_def)
qed

lemma correlate_conflict:
  assumes "identityConflict st l \<or> endpointConflict st l"
  shows "\<exists>p. correlate st l = Inl p"
proof (cases "upsertNode st l")
  case (Inl p)
  then show ?thesis by (simp add: correlate_def)
next
  case (Inr st1)
  with assms upsertNode_conflict[of st l] have "endpointConflict st l" by auto
  then have "endpointConflict st1 l"
    using upsertNode_others[OF Inr] by (simp add: endpointConflict_def)
  then obtain p where "registerLocalEp st1 l = Inl p"
    using registerLocalEp_Inr_iff[of st1 l] by (cases "registerLocalEp st1 l") auto
  with Inr show ?thesis by (simp add: correlate_def)
qed

lemma wf_initialState: "wf initialState"
  by (simp add: wf_def nodesOK_def endpointsOK_def edgesOK_def initialState_def)

lemma processLine_wf:
  assumes "processLine st line = Inr st'" "wf st"
  shows "wf st'"
  using assms correlate_wf
  by (auto simp: processLine_def split: sum.splits if_splits)

lemma processLines_wf:
  "processLines st ls = Inr st' \<Longrightarrow> wf st \<Longrightarrow> wf st'"
proof (induction ls arbitrary: st)
  case Nil
  then show ?case by simp
next
  case (Cons line ls)
  then show ?case by (auto split: sum.splits dest: processLine_wf)
qed

section \<open>Repeating an observation, and two mirror observations\<close>

lemma upsertNode_idem: "localNode st l \<Longrightarrow> upsertNode st l = Inr st"
  by (auto simp: upsertNode_def localNode_def map_upd_triv split: option.splits)

lemma registerLocalEp_idem:
  "knownEndpoints st (localEp l) = Some (InputLine.ProcessID l) \<Longrightarrow> registerLocalEp st l = Inr st"
  by (simp add: registerLocalEp_def)

lemma drawEdge_idem: "drawEdge st l = Inr st3 \<Longrightarrow> drawEdge st3 l = Inr st3"
  by (auto simp: drawEdge_def Let_def split: option.splits if_splits)

lemma correlate_steps:
  assumes "correlate st l = Inr st'"
  obtains st1 st2 where "upsertNode st l = Inr st1" "registerLocalEp st1 l = Inr st2"
    "drawEdge st2 l = Inr st'"
  using assms by (auto simp: correlate_def split: sum.splits)

lemma correlate_idem:
  assumes c: "correlate st l = Inr st'"
  shows "correlate st' l = Inr st'"
proof -
  from c obtain st1 st2 where s: "upsertNode st l = Inr st1" "registerLocalEp st1 l = Inr st2"
    "drawEdge st2 l = Inr st'" by (rule correlate_steps)
  note e2 = registerLocalEp_effect[OF s(2)]
  note e3 = drawEdge_effect[OF s(3)]
  from upsertNode_local[OF s(1)] e2 e3 have "localNode st' l" by (simp add: localNode_def)
  then have 1: "upsertNode st' l = Inr st'" by (rule upsertNode_idem)
  from e2 e3 have "knownEndpoints st' (localEp l) = Some (InputLine.ProcessID l)" by simp
  then have 2: "registerLocalEp st' l = Inr st'" by (rule registerLocalEp_idem)
  from 1 2 drawEdge_idem[OF s(3)] show ?thesis by (simp add: correlate_def)
qed

lemma upsertNode_noDuplicatePorts:
  "upsertNode st l = Inr st1 \<Longrightarrow> noDuplicatePorts st \<Longrightarrow> noDuplicatePorts st1"
  unfolding noDuplicatePorts_def
  by (auto simp: upsertNode_def Let_def split: option.splits if_splits)

lemma correlate_noDuplicatePorts:
  assumes c: "correlate st l = Inr st'" and n: "noDuplicatePorts st"
  shows "noDuplicatePorts st'"
proof -
  from c obtain st1 st2 where s: "upsertNode st l = Inr st1" "registerLocalEp st1 l = Inr st2"
    "drawEdge st2 l = Inr st'" by (rule correlate_steps)
  from upsertNode_noDuplicatePorts[OF s(1) n] registerLocalEp_effect[OF s(2)] drawEdge_effect[OF s(3)]
  show ?thesis by (simp add: noDuplicatePorts_def)
qed

lemma correlate_effect:
  assumes c: "correlate st l = Inr st'"
  shows "knownEndpoints st' = (knownEndpoints st)(localEp l \<mapsto> InputLine.ProcessID l)"
    and "edges st' = (case ((knownEndpoints st)(localEp l \<mapsto> InputLine.ProcessID l)) (remoteEp l) of
                        None \<Rightarrow> edges st
                      | Some remotePID \<Rightarrow> insert (edgeOf l remotePID) (edges st))"
    and "localNode st' l"
    and "\<And>q. q \<noteq> InputLine.ProcessID l \<Longrightarrow> nodes st' q = nodes st q"
    and "\<not> endpointConflict st l"
    and "nodes st (InputLine.ProcessID l) = Some n \<Longrightarrow>
           ProcessName n = InputLine.ProcessName l \<and> LocalIP n = InputLine.LocalIP l"
proof -
  from c obtain st1 st2 where s: "upsertNode st l = Inr st1" "registerLocalEp st1 l = Inr st2"
    "drawEdge st2 l = Inr st'" by (rule correlate_steps)
  note e1 = upsertNode_others[OF s(1)]
  note e2 = registerLocalEp_effect[OF s(2)]
  note e3 = drawEdge_effect[OF s(3)]
  show "knownEndpoints st' = (knownEndpoints st)(localEp l \<mapsto> InputLine.ProcessID l)"
    using e1 e2 e3 by simp
  show "edges st' = (case ((knownEndpoints st)(localEp l \<mapsto> InputLine.ProcessID l)) (remoteEp l) of
                        None \<Rightarrow> edges st
                      | Some remotePID \<Rightarrow> insert (edgeOf l remotePID) (edges st))"
    using e1 e2 e3 by (auto split: option.splits)
  show "localNode st' l"
    using upsertNode_local[OF s(1)] e2 e3 by (simp add: localNode_def)
  show "\<And>q. q \<noteq> InputLine.ProcessID l \<Longrightarrow> nodes st' q = nodes st q"
    using s(1) e2 e3 by (auto simp: upsertNode_def Let_def split: option.splits if_splits)
  show "\<not> endpointConflict st l"
    using registerLocalEp_Inr_iff[of st1 l] s(2) e1 by (auto simp: endpointConflict_def)
  show "nodes st (InputLine.ProcessID l) = Some n \<Longrightarrow>
           ProcessName n = InputLine.ProcessName l \<and> LocalIP n = InputLine.LocalIP l"
    using s(1) by (auto simp: upsertNode_def Let_def split: option.splits if_splits)
qed






section \<open>The concrete inputs, evaluated\<close>

lemmas shape_eval = shapeLine_def plainText_def decimalText_def isDigit_def decimal_def digitVal_def

lemma parse_exampleLine1: "parseLine exampleLine1 = Inr exampleObs1"
  using parseLine_of_shapeLine[of "''<-''" "''10.0.0.5''" "''10.0.0.9''" "''svcA''" "''8080''" "''443''" "''100''"]
  by (simp add: shape_eval exampleLine1_def exampleObs1_def)

lemma parse_exampleLine2: "parseLine exampleLine2 = Inr exampleObs2"
  using parseLine_of_shapeLine[of "''->''" "''10.0.0.9''" "''10.0.0.5''" "''svcB''" "''443''" "''8080''" "''200''"]
  by (simp add: shape_eval exampleLine2_def exampleObs2_def)

lemma valid_exampleObs1: "IsValidLine exampleObs1"
  by (simp add: ip_eval exampleObs1_def)

lemma valid_exampleObs2: "IsValidLine exampleObs2"
  by (simp add: ip_eval exampleObs2_def)

lemma show_examples: "showInt 8080 = ''8080''" "showInt 443 = ''443''" "showInt 100 = ''100''" "showInt 200 = ''200''"
  by (simp_all add: showInt_def showNat.simps)

lemmas run_eval = correlate_def upsertNode_def registerLocalEp_def drawEdge_def
  localEp_def remoteEp_def edgeOf_def nodeOf_def graphNode_def nodeId_def Let_def

lemma example_step1: "correlate initialState exampleObs1 = Inr exampleMid"
  by (simp add: initialState_def NewGraph_def run_eval exampleObs1_def show_examples
      exampleMid_def exampleNode1_def)

lemma example_step2: "correlate exampleMid exampleObs2 = Inr exampleFinal"
  by (simp add: run_eval exampleObs2_def show_examples
      exampleMid_def exampleFinal_def exampleNode1_def exampleNode2_def)

lemma example_run: "createGraphFromStdin [exampleLine1, exampleLine2] = Inr exampleFinal"
  by (simp add: createGraphFromStdin_def processLine_def parse_exampleLine1 parse_exampleLine2
      valid_exampleObs1 valid_exampleObs2 example_step1 example_step2)

lemma parse_selfLine1: "parseLine selfLine1 = Inr selfObs1"
  using parseLine_of_shapeLine[of "''->''" "''10.0.0.2''" "''10.0.0.1''" "''x''" "''5000''" "''80''" "''1''"]
  by (simp add: shape_eval selfLine1_def selfObs1_def)

lemma parse_selfLine2: "parseLine selfLine2 = Inr selfObs2"
  using parseLine_of_shapeLine[of "''->''" "''10.0.0.1''" "''10.0.0.1''" "''x''" "''80''" "''6000''" "''1''"]
  by (simp add: shape_eval selfLine2_def selfObs2_def)

lemma parse_badIpLine: "parseLine badIpLine = Inr badIpObs"
  using parseLine_of_shapeLine[of "''->''" "''a''" "''b''" "''x''" "''1''" "''2''" "''3''"]
  by (simp add: shape_eval badIpLine_def badIpObs_def)

lemma parse_loopbackLine: "parseLine loopbackLine = Inr loopbackObs"
  using parseLine_of_shapeLine[of "''->''" "''127.0.0.1''" "''10.0.0.1''" "''x''" "''80''" "''90''" "''1''"]
  by (simp add: shape_eval loopbackLine_def loopbackObs_def)

lemma parse_zeroPortLine: "parseLine zeroPortLine = Inr zeroPortObs"
  using parseLine_of_shapeLine[of "''->''" "''10.0.0.2''" "''10.0.0.1''" "''x''" "''0''" "''90''" "''1''"]
  by (simp add: shape_eval zeroPortLine_def zeroPortObs_def)

lemma parse_chattyLine: "parseLine chattyLine = Inr chattyObs"
  using parseLine_of_shapeLine[of "''->''" "''10.0.0.2''" "''10.0.0.1''" "''k3s-server''" "''80''" "''90''" "''1''"]
  by (simp add: shape_eval chattyLine_def chattyObs_def)

lemma parse_conflictLine: "parseLine conflictLine = Inr conflictObs"
  using parseLine_of_shapeLine[of "''->''" "''10.0.0.7''" "''10.0.0.9''" "''other''" "''1''" "''443''" "''100''"]
  by (simp add: shape_eval conflictLine_def conflictObs_def)

lemma valid_selfObs1: "IsValidLine selfObs1"
  by (simp add: ip_eval selfObs1_def)

lemma valid_selfObs2: "IsValidLine selfObs2"
  by (simp add: ip_eval selfObs2_def)

lemma valid_badIpObs: "IsValidLine badIpObs"
  by (simp add: ip_eval badIpObs_def)

lemma valid_conflictObs: "IsValidLine conflictObs"
  by (simp add: ip_eval conflictObs_def)

lemma ParseIP_bad: "ParseIP (InputLine.LocalIP badIpObs) = []" "ParseIP (RemoteIP badIpObs) = []"
  by (simp_all add: ip_eval badIpObs_def)

lemma show_self: "showInt 1 = ''1''" "showInt 80 = ''80''" "showInt 6000 = ''6000''"
  by (simp_all add: showInt_def showNat.simps)

lemma self_step1: "correlate initialState selfObs1 = Inr selfMid"
  by (simp add: initialState_def NewGraph_def run_eval selfObs1_def show_self
      selfMid_def selfNodeId_def)

lemma self_step2: "correlate selfMid selfObs2 = Inr selfFinal"
  by (simp add: run_eval selfObs2_def show_self selfMid_def selfFinal_def selfNodeId_def selfEdge_def)

lemma self_run: "createGraphFromStdin [selfLine1, selfLine2] = Inr selfFinal"
  by (simp add: createGraphFromStdin_def processLine_def parse_selfLine1 parse_selfLine2
      valid_selfObs1 valid_selfObs2 self_step1 self_step2)

lemma wf_exampleMid: "wf exampleMid"
  using correlate_wf[OF example_step1 wf_initialState] by simp

section \<open>The claims\<close>

lemma hasShape_colon: "hasShape arrow line \<Longrightarrow> CHR '':'' \<in> set line"
  by (auto simp: hasShape_def shapeLine_def)

lemma processLine_accepted:
  "parseLine line = Inr l \<Longrightarrow> IsValidLine l \<Longrightarrow> processLine st line = correlate st l"
  by (simp add: processLine_def)

text \<open>
  Claim C1, as amended. The two example lines
  \<^verbatim>\<open>10.0.0.5:8080<-10.0.0.9:443|PID=100 CMD=svcA\<close> and
  \<^verbatim>\<open>10.0.0.9:443->10.0.0.5:8080|PID=200 CMD=svcB\<close>, fed in this order from the empty
  state, end without a panic in a state with exactly two nodes, pid 100 named svcA with
  local IP 10.0.0.9 and pid 200 named svcB with local IP 10.0.0.5, and exactly one edge,
  from (pid 100, port 443) to (pid 200, port 8080). \<open>parseLine\<close> takes the first pair of
  a line as the remote endpoint and the second as the local one for both arrows, which is
  the order the README gives for the tracer's output.
\<close>

theorem example_scenario:
  "createGraphFromStdin [exampleLine1, exampleLine2] = Inr exampleFinal
   \<and> dom (nodes exampleFinal) = {100, 200}
   \<and> nodes exampleFinal 100 = Some exampleNode1
   \<and> ProcessName exampleNode1 = ''svcA'' \<and> LocalIP exampleNode1 = ''10.0.0.9''
   \<and> nodes exampleFinal 200 = Some exampleNode2
   \<and> ProcessName exampleNode2 = ''svcB'' \<and> LocalIP exampleNode2 = ''10.0.0.5''
   \<and> edges exampleFinal = {exampleEdge}
   \<and> Source exampleEdge = \<lparr>PID = 100, ProcessEndpoint.Port = 443\<rparr>
   \<and> Dest exampleEdge = \<lparr>PID = 200, ProcessEndpoint.Port = 8080\<rparr>"
  using example_run
  by (auto simp: exampleFinal_def exampleNode1_def exampleNode2_def exampleEdge_def)

text \<open>
  Claim C1 as stated fails: after the two lines, pid 100 is not at 10.0.0.5, pid 200 is
  not at 10.0.0.9, and there is no edge from (pid 200, port 443) to (pid 100, port 8080).
\<close>

theorem example_scenario_counterexample:
  "createGraphFromStdin [exampleLine1, exampleLine2] = Inr exampleFinal
   \<and> map_option LocalIP (nodes exampleFinal 100) \<noteq> Some ''10.0.0.5''
   \<and> map_option LocalIP (nodes exampleFinal 200) \<noteq> Some ''10.0.0.9''
   \<and> \<lparr>Source = \<lparr>PID = 200, ProcessEndpoint.Port = 443\<rparr>,
       Dest = \<lparr>PID = 100, ProcessEndpoint.Port = 8080\<rparr>\<rparr> \<notin> edges exampleFinal"
  using example_run
  by (simp add: exampleFinal_def exampleNode1_def exampleNode2_def)

text \<open>
  Claim C2, as amended. For plain text fields and numbers that fit 64 bits, the line
  \<^verbatim>\<open>a:pa<-b:pb|PID=pid CMD=name\<close> parses to an outbound-from-local observation
  (\<open>Local2Remote\<close>) and the line \<^verbatim>\<open>a:pa->b:pb|PID=pid CMD=name\<close> to an
  inbound-to-local one (\<open>Remote2Local\<close>); in both, the remote endpoint is the first pair
  and the local endpoint the second pair. A line no part of which has either shape is
  rejected.
\<close>

theorem parseLine_shapes:
  assumes "plainText a" "plainText b" "plainText name"
    and "decimalText pa" "decimalText pb" "decimalText pid"
    and "decimal pa < 2 ^ 63" "decimal pb < 2 ^ 63" "decimal pid < 2 ^ 63"
  shows "parseLine (a @ '':'' @ pa @ ''<-'' @ b @ '':'' @ pb @ ''|PID='' @ pid @ '' CMD='' @ name) =
           Inr \<lparr>Dir = Local2Remote, RemoteIP = a, RemotePort = decimal pa,
                InputLine.LocalIP = b, LocalPort = decimal pb,
                InputLine.ProcessID = decimal pid, InputLine.ProcessName = name\<rparr>
       \<and> parseLine (a @ '':'' @ pa @ ''->'' @ b @ '':'' @ pb @ ''|PID='' @ pid @ '' CMD='' @ name) =
           Inr \<lparr>Dir = Remote2Local, RemoteIP = a, RemotePort = decimal pa,
                InputLine.LocalIP = b, LocalPort = decimal pb,
                InputLine.ProcessID = decimal pid, InputLine.ProcessName = name\<rparr>
       \<and> (\<not> hasShape ''<-'' line \<and> \<not> hasShape ''->'' line \<longrightarrow>
            parseLine line = Inl (SkippingInvalidLine line))"
proof -
  have "parseLine (shapeLine a pa ''<-'' b pb pid name) =
           Inr \<lparr>Dir = Local2Remote, RemoteIP = a, RemotePort = decimal pa,
                InputLine.LocalIP = b, LocalPort = decimal pb,
                InputLine.ProcessID = decimal pid, InputLine.ProcessName = name\<rparr>"
    using parseLine_of_shapeLine[OF _ assms, of "''<-''"] by simp
  moreover have "parseLine (shapeLine a pa ''->'' b pb pid name) =
           Inr \<lparr>Dir = Remote2Local, RemoteIP = a, RemotePort = decimal pa,
                InputLine.LocalIP = b, LocalPort = decimal pb,
                InputLine.ProcessID = decimal pid, InputLine.ProcessName = name\<rparr>"
    using parseLine_of_shapeLine[OF _ assms, of "''->''"] by simp
  ultimately show ?thesis
    using parseLine_no_shape[of line] by (simp add: shapeLine_def)
qed

theorem parseLine_shapes_witness:
  "parseLine ''10.0.0.5:8080<-10.0.0.9:443|PID=100 CMD=svcA'' =
      Inr \<lparr>Dir = Local2Remote, RemoteIP = ''10.0.0.5'', RemotePort = 8080,
           InputLine.LocalIP = ''10.0.0.9'', LocalPort = 443,
           InputLine.ProcessID = 100, InputLine.ProcessName = ''svcA''\<rparr>
   \<and> parseLine ''10.0.0.5:8080->10.0.0.9:443|PID=100 CMD=svcA'' =
      Inr \<lparr>Dir = Remote2Local, RemoteIP = ''10.0.0.5'', RemotePort = 8080,
           InputLine.LocalIP = ''10.0.0.9'', LocalPort = 443,
           InputLine.ProcessID = 100, InputLine.ProcessName = ''svcA''\<rparr>
   \<and> parseLine ''hello'' = Inl (SkippingInvalidLine ''hello'')"
  using parseLine_shapes[of "''10.0.0.5''" "''10.0.0.9''" "''svcA''" "''8080''" "''443''" "''100''" "''hello''"]
    hasShape_colon[of "''<-''" "''hello''"] hasShape_colon[of "''->''" "''hello''"]
  by (auto simp: plainText_def decimalText_def isDigit_def decimal_def digitVal_def)

text \<open>
  Claim C2 as stated fails on the first example line: it has the \<^verbatim>\<open><-\<close> shape with
  first pair 10.0.0.5:8080, and its local endpoint is not the first pair, nor its remote
  endpoint the second.
\<close>

theorem parseLine_shapes_counterexample:
  "parseLine exampleLine1 = Inr exampleObs1
   \<and> exampleLine1 = ''10.0.0.5'' @ '':'' @ ''8080'' @ ''<-'' @ ''10.0.0.9'' @ '':'' @ ''443''
                      @ ''|PID='' @ ''100'' @ '' CMD='' @ ''svcA''
   \<and> Dir exampleObs1 = Local2Remote
   \<and> localEp exampleObs1 \<noteq> \<lparr>NetworkEndpoint.IP = ''10.0.0.5'', NetworkEndpoint.Port = 8080\<rparr>
   \<and> remoteEp exampleObs1 \<noteq> \<lparr>NetworkEndpoint.IP = ''10.0.0.9'', NetworkEndpoint.Port = 443\<rparr>"
  using parse_exampleLine1
  by (simp add: exampleLine1_def exampleObs1_def localEp_def remoteEp_def)





text \<open>
  Claim C4. For an accepted observation: if its process id is known with another name or
  another local IP, or its local endpoint is registered to another process id, the round
  panics, and so does the run, whatever lines follow. If neither is the case (in a state
  that satisfies the invariants), the round returns, every stored identity (process id,
  name, local IP) is the same afterwards, and every registered endpoint still maps to the
  same process id.
\<close>

theorem consistency_violations_abort:
  assumes "parseLine line = Inr l" "IsValidLine l"
  shows "(identityConflict st l \<or> endpointConflict st l \<longrightarrow>
            (\<exists>p. processLine st line = Inl p \<and> processLines st (line # rest) = Inl p))
       \<and> (wf st \<and> \<not> identityConflict st l \<and> \<not> endpointConflict st l \<longrightarrow>
            (\<exists>st'. processLine st line = Inr st'
               \<and> (\<forall>pid n. nodes st pid = Some n \<longrightarrow>
                     (\<exists>n'. nodes st' pid = Some n' \<and> ProcessID n' = ProcessID n
                        \<and> ProcessName n' = ProcessName n \<and> LocalIP n' = LocalIP n))
               \<and> (\<forall>ep pid. knownEndpoints st ep = Some pid \<longrightarrow> knownEndpoints st' ep = Some pid)))"
proof (intro conjI impI)
  assume "identityConflict st l \<or> endpointConflict st l"
  from correlate_conflict[OF this]
  show "\<exists>p. processLine st line = Inl p \<and> processLines st (line # rest) = Inl p"
    by (auto simp: processLine_accepted[OF assms])
next
  assume a: "wf st \<and> \<not> identityConflict st l \<and> \<not> endpointConflict st l"
  then obtain st' where c: "correlate st l = Inr st'"
    using correlate_Inr_iff[of st l] by auto
  from c obtain st1 st2 where s: "upsertNode st l = Inr st1" "registerLocalEp st1 l = Inr st2"
    "drawEdge st2 l = Inr st'" by (rule correlate_steps)
  note e2 = registerLocalEp_effect[OF s(2)]
  note e3 = drawEdge_effect[OF s(3)]
  have n: "\<forall>pid n. nodes st pid = Some n \<longrightarrow>
             (\<exists>n'. nodes st' pid = Some n' \<and> ProcessID n' = ProcessID n
                \<and> ProcessName n' = ProcessName n \<and> LocalIP n' = LocalIP n)"
  proof (intro allI impI)
    fix pid n assume "nodes st pid = Some n"
    from upsertNode_grows[OF s(1) this] e2 e3
    show "\<exists>n'. nodes st' pid = Some n' \<and> ProcessID n' = ProcessID n
                \<and> ProcessName n' = ProcessName n \<and> LocalIP n' = LocalIP n" by auto
  qed
  have k: "\<forall>ep pid. knownEndpoints st ep = Some pid \<longrightarrow> knownEndpoints st' ep = Some pid"
  proof (intro allI impI)
    fix ep pid assume "knownEndpoints st ep = Some pid"
    with a correlate_effect(1)[OF c] show "knownEndpoints st' ep = Some pid"
      by (cases "ep = localEp l") (auto simp: endpointConflict_def)
  qed
  from c n k show "\<exists>st'. processLine st line = Inr st'
               \<and> (\<forall>pid n. nodes st pid = Some n \<longrightarrow>
                     (\<exists>n'. nodes st' pid = Some n' \<and> ProcessID n' = ProcessID n
                        \<and> ProcessName n' = ProcessName n \<and> LocalIP n' = LocalIP n))
               \<and> (\<forall>ep pid. knownEndpoints st ep = Some pid \<longrightarrow> knownEndpoints st' ep = Some pid)"
    by (simp add: processLine_accepted[OF assms])
qed

lemma conflict_example: "identityConflict exampleMid conflictObs"
  by (simp add: identityConflict_def exampleMid_def conflictObs_def exampleNode1_def)

lemma no_conflict_example:
  "\<not> identityConflict exampleMid exampleObs1" "\<not> endpointConflict exampleMid exampleObs1"
  by (simp_all add: identityConflict_def endpointConflict_def exampleMid_def exampleObs1_def
      exampleNode1_def localEp_def)

lemma example_step1_again: "correlate exampleMid exampleObs1 = Inr exampleMid"
  using correlate_idem[OF example_step1] .

lemma process_exampleLine1: "processLine initialState exampleLine1 = Inr exampleMid"
  by (simp add: processLine_accepted[OF parse_exampleLine1 valid_exampleObs1] example_step1)

theorem consistency_violations_abort_witness:
  "parseLine conflictLine = Inr conflictObs \<and> IsValidLine conflictObs
   \<and> identityConflict exampleMid conflictObs
   \<and> (\<exists>p. processLine exampleMid conflictLine = Inl p
          \<and> createGraphFromStdin [exampleLine1, conflictLine, exampleLine2] = Inl p)
   \<and> parseLine exampleLine1 = Inr exampleObs1 \<and> IsValidLine exampleObs1
   \<and> wf exampleMid \<and> \<not> identityConflict exampleMid exampleObs1
   \<and> \<not> endpointConflict exampleMid exampleObs1
   \<and> processLine exampleMid exampleLine1 = Inr exampleMid"
  using consistency_violations_abort[OF parse_conflictLine valid_conflictObs,
      of exampleMid "[exampleLine2]"]
    consistency_violations_abort[OF parse_exampleLine1 valid_exampleObs1, of exampleMid]
    conflict_example no_conflict_example wf_exampleMid parse_conflictLine valid_conflictObs
    parse_exampleLine1 valid_exampleObs1
    processLine_accepted[OF parse_exampleLine1 valid_exampleObs1, of exampleMid] example_step1_again
    process_exampleLine1
  by (auto simp: createGraphFromStdin_def)

text \<open>
  Claim C5. If a line was processed without a panic, processing the same line again
  returns and changes nothing: no port is added to any node, no edge is added. A round
  never makes a port list hold a port twice.
\<close>

theorem same_line_twice:
  assumes "processLine st line = Inr st1"
  shows "processLine st1 line = Inr st1 \<and> (noDuplicatePorts st \<longrightarrow> noDuplicatePorts st1)"
proof (cases "parseLine line")
  case (Inl err)
  with assms show ?thesis by (simp add: processLine_def)
next
  case (Inr l)
  show ?thesis
  proof (cases "IsValidLine l")
    case False
    with Inr assms show ?thesis by (simp add: processLine_def)
  next
    case True
    with Inr assms have c: "correlate st l = Inr st1" by (simp add: processLine_def)
    from correlate_idem[OF c] correlate_noDuplicatePorts[OF c] Inr True
    show ?thesis by (simp add: processLine_def)
  qed
qed

lemma noDuplicatePorts_initialState: "noDuplicatePorts initialState"
  by (simp add: noDuplicatePorts_def initialState_def)

lemma process_exampleLine2: "processLine exampleMid exampleLine2 = Inr exampleFinal"
  by (simp add: processLine_accepted[OF parse_exampleLine2 valid_exampleObs2] example_step2)

theorem same_line_twice_witness:
  "processLine initialState exampleLine1 = Inr exampleMid
   \<and> processLine exampleMid exampleLine1 = Inr exampleMid
   \<and> noDuplicatePorts initialState \<and> noDuplicatePorts exampleMid
   \<and> processLine exampleMid exampleLine2 = Inr exampleFinal
   \<and> edges exampleFinal = {exampleEdge}
   \<and> processLine exampleFinal exampleLine2 = Inr exampleFinal"
  using same_line_twice[OF process_exampleLine1] same_line_twice[OF process_exampleLine2]
    process_exampleLine1 process_exampleLine2 noDuplicatePorts_initialState
  by (simp add: exampleFinal_def exampleEdge_def)

lemma IsLoopback_v4_Contains:
  assumes "IsLoopback ip" "To4 ip \<noteq> []"
  shows "Contains loopbackNet ip"
proof -
  from To4_length[OF assms(2)] obtain a b c d where t: "To4 ip = [a, b, c, d]"
    by (auto simp: length_Suc_conv numeral_eq_Suc)
  with assms have "a = 127" by (simp add: IsLoopback_def)
  with t show ?thesis by (simp add: Contains_loopbackNet)
qed

text \<open>
  Claim C6, as amended. A parsed observation with a zero port on either side, an IPv4
  loopback IP on either side (an address of 127.0.0.0/8, written as IPv4 or as
  IPv4-mapped IPv6), or the process name \<open>k3s-server\<close> leaves the whole state as it was:
  node store, endpoint registry, edge set and graph.
\<close>

theorem noise_changes_nothing:
  assumes "parseLine line = Inr l"
    and "LocalPort l = 0 \<or> RemotePort l = 0
         \<or> (IsLoopback (ParseIP (InputLine.LocalIP l)) \<and> To4 (ParseIP (InputLine.LocalIP l)) \<noteq> [])
         \<or> (IsLoopback (ParseIP (RemoteIP l)) \<and> To4 (ParseIP (RemoteIP l)) \<noteq> [])
         \<or> InputLine.ProcessName l = ''k3s-server''"
  shows "processLine st line = Inr st"
proof -
  from assms(2) have "\<not> IsValidLine l"
    using IsLoopback_v4_Contains[of "ParseIP (InputLine.LocalIP l)"]
      IsLoopback_v4_Contains[of "ParseIP (RemoteIP l)"]
    by (auto simp: IsValidLine_def)
  with assms(1) show ?thesis by (simp add: processLine_def)
qed

lemma ParseIP_loopback4: "ParseIP ''127.0.0.1'' = [0, 0, 0, 0, 0, 0, 0, 0, 0, 0, 255, 255, 127, 0, 0, 1]"
  by (simp add: ip_eval)

lemma loopback4_remote:
  "IsLoopback (ParseIP (RemoteIP loopbackObs))" "To4 (ParseIP (RemoteIP loopbackObs)) \<noteq> []"
  by (simp_all add: loopbackObs_def ParseIP_loopback4 IsLoopback_def To4_def replicate10)

theorem noise_changes_nothing_witness:
  "parseLine loopbackLine = Inr loopbackObs
   \<and> IsLoopback (ParseIP (RemoteIP loopbackObs)) \<and> To4 (ParseIP (RemoteIP loopbackObs)) \<noteq> []
   \<and> processLine exampleMid loopbackLine = Inr exampleMid
   \<and> parseLine zeroPortLine = Inr zeroPortObs \<and> RemotePort zeroPortObs = 0
   \<and> processLine exampleMid zeroPortLine = Inr exampleMid
   \<and> parseLine chattyLine = Inr chattyObs \<and> InputLine.ProcessName chattyObs = ''k3s-server''
   \<and> processLine exampleMid chattyLine = Inr exampleMid"
  using noise_changes_nothing[OF parse_loopbackLine, of exampleMid]
    noise_changes_nothing[OF parse_zeroPortLine, of exampleMid]
    noise_changes_nothing[OF parse_chattyLine, of exampleMid]
    parse_loopbackLine parse_zeroPortLine parse_chattyLine loopback4_remote
  by (simp add: zeroPortObs_def chattyObs_def)

lemma replicate14: "replicate 14 (0::nat) = [0, 0, 0, 0, 0, 0, 0, 0, 0, 0, 0, 0, 0, 0]"
  by (simp add: numeral_eq_Suc)

lemma ParseIP_v6loopback: "ParseIP ''::1'' = IPv6loopback"
  by (simp add: ParseIP_def ParseAddr_def parseIPv6_def parseIPv6Loop.simps isHex_def hexVal_def
      isDigit_def replicate14 IPv6loopback_def)

lemma To4_IPv6loopback: "To4 IPv6loopback = []"
  by (simp add: To4_def IPv6loopback_def)

lemma parse_v6LoopbackLine: "parseLine v6LoopbackLine = Inr v6LoopbackObs"
  using parseLine_of_shapeLine[of "''->''" "''::1''" "''10.0.0.1''" "''x''" "''80''" "''90''" "''1''"]
  by (simp add: shape_eval v6LoopbackLine_def v6LoopbackObs_def)

lemma valid_v6LoopbackObs: "IsValidLine v6LoopbackObs"
  by (simp add: IsValidLine_def Contains_loopbackNet v6LoopbackObs_def ParseIP_v6loopback
      To4_IPv6loopback)
     (simp add: ip_eval)

lemma show_v6: "showInt 90 = ''90''"
  by (simp add: showInt_def showNat.simps)

lemma correlate_v6Loopback: "correlate initialState v6LoopbackObs = Inr v6LoopbackState"
  by (simp add: initialState_def NewGraph_def run_eval v6LoopbackObs_def show_self show_v6
      v6LoopbackState_def)

text \<open>
  Claim C6 as stated fails for the IPv6 loopback address: the line
  \<^verbatim>\<open>::1:80->10.0.0.1:90|PID=1 CMD=x\<close> parses, its remote IP \<open>::1\<close> is a loopback IP,
  the line passes \<open>IsValidLine\<close> (the filter tests the network 127.0.0.0/8 only), and
  processing it from the empty state stores a node for pid 1 and registers its endpoint.
\<close>

theorem noise_changes_nothing_counterexample:
  "parseLine v6LoopbackLine = Inr v6LoopbackObs
   \<and> RemoteIP v6LoopbackObs = ''::1''
   \<and> ParseIP (RemoteIP v6LoopbackObs) = IPv6loopback
   \<and> IsLoopback (ParseIP (RemoteIP v6LoopbackObs))
   \<and> processLine initialState v6LoopbackLine = Inr v6LoopbackState
   \<and> nodes initialState 1 = None
   \<and> nodes v6LoopbackState 1 \<noteq> None
   \<and> knownEndpoints v6LoopbackState \<noteq> knownEndpoints initialState"
proof -
  have "IsLoopback IPv6loopback" by (simp add: IsLoopback_def To4_IPv6loopback)
  moreover have "processLine initialState v6LoopbackLine = Inr v6LoopbackState"
    by (simp add: processLine_def parse_v6LoopbackLine valid_v6LoopbackObs correlate_v6Loopback)
  moreover have "knownEndpoints v6LoopbackState
      \<lparr>NetworkEndpoint.IP = ''10.0.0.1'', NetworkEndpoint.Port = 90\<rparr> \<noteq>
    knownEndpoints initialState \<lparr>NetworkEndpoint.IP = ''10.0.0.1'', NetworkEndpoint.Port = 90\<rparr>"
    by (simp add: v6LoopbackState_def initialState_def)
  then have "knownEndpoints v6LoopbackState \<noteq> knownEndpoints initialState" by metis
  ultimately show ?thesis
    using parse_v6LoopbackLine
    by (simp add: v6LoopbackObs_def ParseIP_v6loopback v6LoopbackState_def initialState_def)
qed






text \<open>
  Claim C8, as amended. An observation that passes \<open>parseLine\<close> and \<open>IsValidLine\<close> has
  a local and a remote port greater than zero, non-empty local and remote IP texts, and
  neither text is an address of the loopback network. Nothing checks that the texts are
  IP addresses.
\<close>

theorem accepted_observation_fields:
  assumes "parseLine line = Inr l" "IsValidLine l"
  shows "0 < LocalPort l \<and> 0 < RemotePort l
       \<and> InputLine.LocalIP l \<noteq> [] \<and> RemoteIP l \<noteq> []
       \<and> \<not> Contains loopbackNet (ParseIP (InputLine.LocalIP l))
       \<and> \<not> Contains loopbackNet (ParseIP (RemoteIP l))"
proof -
  from parseLine_Inr[OF assms(1)] obtain a pa b pb where
    l: "a \<noteq> []" "b \<noteq> []" "RemoteIP l = a" "InputLine.LocalIP l = b"
       "RemotePort l = decimal pa" "LocalPort l = decimal pb"
    by (metis InputLine.select_convs(2,3,4,5))
  from l(5,6) decimal_nonneg[of pa] decimal_nonneg[of pb]
  have "0 \<le> RemotePort l" "0 \<le> LocalPort l" by simp_all
  with assms(2) l show ?thesis
    by (auto simp: IsValidLine_def split: if_splits)
qed

theorem accepted_observation_fields_witness:
  "parseLine exampleLine1 = Inr exampleObs1 \<and> IsValidLine exampleObs1
   \<and> 0 < LocalPort exampleObs1 \<and> 0 < RemotePort exampleObs1
   \<and> \<not> Contains loopbackNet (ParseIP (InputLine.LocalIP exampleObs1))"
  using accepted_observation_fields[OF parse_exampleLine1 valid_exampleObs1]
    parse_exampleLine1 valid_exampleObs1
  by simp

text \<open>
  Claim C8 as stated fails: the line \<^verbatim>\<open>a:1->b:2|PID=3 CMD=x\<close> passes both checks
  and \<open>net.ParseIP\<close> refuses both of its addresses.
\<close>

theorem accepted_observation_fields_counterexample:
  "parseLine badIpLine = Inr badIpObs \<and> IsValidLine badIpObs
   \<and> ParseIP (InputLine.LocalIP badIpObs) = [] \<and> ParseIP (RemoteIP badIpObs) = []"
  using parse_badIpLine valid_badIpObs ParseIP_bad by simp

lemma edgesOK_dom:
  "hasPort st pe \<Longrightarrow> PID pe \<in> dom (nodes st)"
  by (auto simp: hasPort_def split: option.splits)

text \<open>
  Claim C9. After any number of lines of any input, every edge of the edge set names, at
  both ends, a process id that is a key of the node store (and a port that node lists).
  Within a round, the node of the local process is stored first, with the edge set still
  untouched; the edge is drawn last and the node store does not change after the upsert.
\<close>

theorem edges_reference_known_nodes:
  assumes "createGraphFromStdin (take k stdin) = Inr st"
  shows "(\<forall>e \<in> edges st.
            PID (Source e) \<in> dom (nodes st) \<and> PID (Dest e) \<in> dom (nodes st)
            \<and> hasPort st (Source e) \<and> hasPort st (Dest e))
       \<and> (\<forall>s l s'. correlate s l = Inr s' \<longrightarrow>
            (\<exists>s1 s2. upsertNode s l = Inr s1 \<and> InputLine.ProcessID l \<in> dom (nodes s1)
               \<and> edges s1 = edges s
               \<and> registerLocalEp s1 l = Inr s2 \<and> nodes s2 = nodes s1 \<and> edges s2 = edges s
               \<and> drawEdge s2 l = Inr s' \<and> nodes s' = nodes s1))"
proof (intro conjI allI impI ballI)
  fix e assume e: "e \<in> edges st"
  from assms have "wf st"
    using processLines_wf[OF _ wf_initialState] by (simp add: createGraphFromStdin_def)
  with e have h: "hasPort st (Source e)" "hasPort st (Dest e)"
    by (auto simp: wf_def edgesOK_def)
  then show "hasPort st (Source e)" "hasPort st (Dest e)" by simp_all
  from h show "PID (Source e) \<in> dom (nodes st)" "PID (Dest e) \<in> dom (nodes st)"
    by (simp_all add: edgesOK_dom)
next
  fix s l s' assume "correlate s l = Inr s'"
  then obtain s1 s2 where s: "upsertNode s l = Inr s1" "registerLocalEp s1 l = Inr s2"
    "drawEdge s2 l = Inr s'" by (rule correlate_steps)
  from upsertNode_local[OF s(1)] have "InputLine.ProcessID l \<in> dom (nodes s1)"
    by (auto simp: localNode_def split: option.splits)
  with s upsertNode_others[OF s(1)] registerLocalEp_effect[OF s(2)] drawEdge_effect[OF s(3)]
  show "\<exists>s1 s2. upsertNode s l = Inr s1 \<and> InputLine.ProcessID l \<in> dom (nodes s1)
               \<and> edges s1 = edges s
               \<and> registerLocalEp s1 l = Inr s2 \<and> nodes s2 = nodes s1 \<and> edges s2 = edges s
               \<and> drawEdge s2 l = Inr s' \<and> nodes s' = nodes s1"
    by simp
qed

theorem edges_reference_known_nodes_witness:
  "createGraphFromStdin (take 2 [exampleLine1, exampleLine2]) = Inr exampleFinal
   \<and> exampleEdge \<in> edges exampleFinal
   \<and> PID (Source exampleEdge) \<in> dom (nodes exampleFinal)
   \<and> PID (Dest exampleEdge) \<in> dom (nodes exampleFinal)
   \<and> hasPort exampleFinal (Source exampleEdge) \<and> hasPort exampleFinal (Dest exampleEdge)
   \<and> correlate exampleMid exampleObs2 = Inr exampleFinal
   \<and> InputLine.ProcessID exampleObs2 \<in> dom (nodes exampleFinal)"
proof -
  have r: "createGraphFromStdin (take 2 [exampleLine1, exampleLine2]) = Inr exampleFinal"
    using example_run by simp
  have m: "exampleEdge \<in> edges exampleFinal" by (simp add: exampleFinal_def exampleEdge_def)
  note t = edges_reference_known_nodes[OF r]
  from t m have "PID (Source exampleEdge) \<in> dom (nodes exampleFinal)
     \<and> PID (Dest exampleEdge) \<in> dom (nodes exampleFinal)
     \<and> hasPort exampleFinal (Source exampleEdge) \<and> hasPort exampleFinal (Dest exampleEdge)"
    by blast
  moreover from t example_step2 have "InputLine.ProcessID exampleObs2 \<in> dom (nodes exampleFinal)"
    by (metis sum.inject(2))
  ultimately show ?thesis using r m example_step2 by simp
qed

text \<open>
  Claim C10. Self-loops are kept: pid 1 first registers 10.0.0.1:80 as its local endpoint
  and then reports that endpoint as its remote one; the run ends with the single edge
  from (pid 1, port 80) to (pid 1, port 6000), whose two process ids are equal.
\<close>

theorem self_loop_edge_recorded:
  "createGraphFromStdin [selfLine1, selfLine2] = Inr selfFinal
   \<and> edges selfFinal = {selfEdge}
   \<and> PID (Source selfEdge) = PID (Dest selfEdge)
   \<and> knownEndpoints selfMid (remoteEp selfObs2) = Some (InputLine.ProcessID selfObs2)"
  using self_run
  by (simp add: selfFinal_def selfEdge_def selfMid_def selfObs2_def remoteEp_def)

end
